theory Spec2Isabelle
  imports Main
begin

section \<open>The URL shortener of \<open>backend/server.js\<close>\<close>

text \<open>
  The theory embeds the server's data model and its request handlers.  Conventions:
  \<^item> Time is epoch milliseconds, an \<open>int\<close>.  Every handler runs its synchronous part at one
    reading \<open>now\<close> of \<open>Date.now()\<close>; a handler is one atomic step on the table (the
    interleaving of two handlers at an \<open>await\<close> is outside the model).
  \<^item> JavaScript numbers that the program stores (timestamps, counters, a parsed ttl) are
    integer valued; they are modelled by \<open>int\<close>, that is, in the range where the
    arithmetic of doubles is exact; \<open>NaN\<close> and the two infinities are kept as values of
    their own where the program can produce them (the ttl).  The built-in \<open>parseInt\<close> is
    not modelled: the handler that calls it takes it as a parameter.
  \<^item> Strings are lists of 8-bit characters.
  \<^item> A JavaScript \<open>Map\<close> is an association list in insertion order; its keys are distinct
    (\<open>Map_ok\<close>).  \<open>null\<close> is \<open>None\<close>.
  \<^item> \<open>saveData\<close> only writes the table to disk and swallows its own errors; it does not
    touch the table and is not part of the state.
\<close>

subsection \<open>JavaScript \<open>Map\<close>\<close>

type_synonym 'v js_map = "(string \<times> 'v) list"

definition Map_ok :: "'v js_map \<Rightarrow> bool" where
  "Map_ok m = distinct (map fst m)"

definition Map_get :: "'v js_map \<Rightarrow> string \<Rightarrow> 'v option" where
  "Map_get m k = map_of m k"

definition Map_has :: "'v js_map \<Rightarrow> string \<Rightarrow> bool" where
  "Map_has m k = (Map_get m k \<noteq> None)"

text \<open>\<open>Map.prototype.set\<close>: an existing key keeps its place, a new key goes to the end.\<close>

fun Map_set :: "'v js_map \<Rightarrow> string \<Rightarrow> 'v \<Rightarrow> 'v js_map" where
  "Map_set [] k v = [(k, v)]"
| "Map_set ((k', v') # m) k v = (if k' = k then (k, v) # m else (k', v') # Map_set m k v)"

fun Map_delete :: "'v js_map \<Rightarrow> string \<Rightarrow> 'v js_map" where
  "Map_delete [] k = []"
| "Map_delete ((k', v') # m) k = (if k' = k then Map_delete m k else (k', v') # Map_delete m k)"

subsection \<open>JavaScript values of a request body\<close>

text \<open>
  The \<open>ttl\<close> of a request body is any JSON value; the model has the absent field, \<open>null\<close>,
  booleans, integer numbers and strings (fractions, arrays and objects are left out).  A
  number that \<open>parseInt\<close> returns, and so a stored ttl, is \<open>NaN\<close>, an integer (\<open>-0\<close> is \<open>0\<close>:
  both are falsy), \<open>Infinity\<close> or \<open>-Infinity\<close>.
\<close>

datatype js_value = JUndefined | JNull | JBool bool | JNumber int | JString string

datatype js_number = NaN | Num int | Infinity | NegInfinity

fun truthy :: "js_value \<Rightarrow> bool" where
  "truthy JUndefined = False"
| "truthy JNull = False"
| "truthy (JBool b) = b"
| "truthy (JNumber n) = (n \<noteq> 0)"
| "truthy (JString s) = (s \<noteq> [])"

subsection \<open>\<open>class UrlEntry\<close>\<close>

record UrlEntry =
  longUrl :: string
  shortId :: string
  createdAt :: int
  ttl :: "js_number option"
  accessCount :: int
  lastAccessed :: "int option"
  referrers :: "int js_map"
  browserStats :: "int js_map"
  qrCode :: "string option"

text \<open>\<open>customSlug || shortId\<close>: a slug that is \<open>null\<close> or the empty string is falsy.\<close>

definition slug_given :: "string option \<Rightarrow> bool" where
  "slug_given customSlug = (case customSlug of None \<Rightarrow> False | Some s \<Rightarrow> s \<noteq> [])"

definition new_UrlEntry ::
  "string \<Rightarrow> string \<Rightarrow> int \<Rightarrow> js_number option \<Rightarrow> string option \<Rightarrow> UrlEntry" where
  "new_UrlEntry longUrl' shortId' createdAt' ttl' customSlug =
     \<lparr> longUrl = longUrl',
       shortId = (if slug_given customSlug then the customSlug else shortId'),
       createdAt = createdAt',
       ttl = ttl',
       accessCount = 0,
       lastAccessed = None,
       referrers = [],
       browserStats = [],
       qrCode = None \<rparr>"

text \<open>
  \<open>if (!this.ttl) return false\<close>: \<open>null\<close>, \<open>0\<close> and \<open>NaN\<close> are the falsy values of a ttl.
  No time is greater than \<open>createdAt + Infinity\<close>, every time is greater than
  \<open>createdAt - Infinity\<close>.
\<close>

definition isExpired :: "int \<Rightarrow> UrlEntry \<Rightarrow> bool" where
  "isExpired now e =
     (case ttl e of
        None \<Rightarrow> False
      | Some NaN \<Rightarrow> False
      | Some (Num t) \<Rightarrow> (if t = 0 then False else now > createdAt e + t)
      | Some Infinity \<Rightarrow> False
      | Some NegInfinity \<Rightarrow> True)"

text \<open>\<open>String.prototype.includes\<close>: the needle occurs as a contiguous run of the string.\<close>

fun startsWith :: "string \<Rightarrow> string \<Rightarrow> bool" where
  "startsWith s [] = True"
| "startsWith [] (c # t) = False"
| "startsWith (d # s) (c # t) = (d = c \<and> startsWith s t)"

fun str_includes :: "string \<Rightarrow> string \<Rightarrow> bool" where
  "str_includes [] t = (t = [])"
| "str_includes (d # s) t = (startsWith (d # s) t \<or> str_includes s t)"

definition getBrowserFromUserAgent :: "string \<Rightarrow> string" where
  "getBrowserFromUserAgent userAgent =
     (if str_includes userAgent ''Firefox'' then ''Firefox''
      else if str_includes userAgent ''Chrome'' then ''Chrome''
      else if str_includes userAgent ''Safari'' then ''Safari''
      else if str_includes userAgent ''Edge'' then ''Edge''
      else ''Other'')"

text \<open>\<open>map.get(k) || 0\<close> followed by \<open>map.set(k, count + 1)\<close>.\<close>

definition bump :: "int js_map \<Rightarrow> string \<Rightarrow> int js_map" where
  "bump m k = Map_set m k ((case Map_get m k of None \<Rightarrow> 0 | Some c \<Rightarrow> c) + 1)"

definition updateStats :: "int \<Rightarrow> string \<Rightarrow> string \<Rightarrow> UrlEntry \<Rightarrow> UrlEntry" where
  "updateStats now referrer userAgent e =
     e\<lparr> accessCount := accessCount e + 1,
        lastAccessed := Some now,
        referrers := bump (referrers e) referrer,
        browserStats := bump (browserStats e) (getBrowserFromUserAgent userAgent) \<rparr>"

text \<open>
  A plain object lists its own properties with the array-index keys first, in ascending
  numeric order, then the other keys in creation order.  \<open>Object.fromEntries\<close> creates
  one property per pair (a repeated key overwrites the value and keeps the place),
  \<open>Object.entries\<close> reads the properties in own-key order, and \<open>new Map(pairs)\<close> sets
  the pairs one after the other.
\<close>

type_synonym 'v js_object = "(string \<times> 'v) list"

text \<open>
  An array index is a key that is the decimal numeral, without leading zeros, of an
  integer from 0 to \<open>2\<^sup>3\<^sup>2 - 2\<close>.
\<close>

definition digitValue :: "char \<Rightarrow> nat option" where
  "digitValue c =
     (let n = (of_char c :: nat) in
      if 48 \<le> n \<and> n \<le> 57 then Some (n - 48)
      else if 97 \<le> n \<and> n \<le> 122 then Some (n - 87)
      else if 65 \<le> n \<and> n \<le> 90 then Some (n - 55)
      else None)"

definition digitsValue :: "nat \<Rightarrow> string \<Rightarrow> nat" where
  "digitsValue R Z = foldl (\<lambda>acc c. acc * R + the (digitValue c)) 0 Z"

definition isDecimalDigit :: "char \<Rightarrow> bool" where
  "isDecimalDigit c = (48 \<le> (of_char c :: nat) \<and> (of_char c :: nat) \<le> 57)"

definition isArrayIndex :: "string \<Rightarrow> bool" where
  "isArrayIndex k =
     (k \<noteq> [] \<and> list_all isDecimalDigit k \<and> (k = ''0'' \<or> hd k \<noteq> CHR ''0'')
      \<and> digitsValue 10 k < 4294967295)"

definition ownPropertyOrder :: "'v js_object \<Rightarrow> 'v js_object" where
  "ownPropertyOrder props =
     sort_key (\<lambda>p. digitsValue 10 (fst p)) (filter (\<lambda>p. isArrayIndex (fst p)) props)
     @ filter (\<lambda>p. \<not> isArrayIndex (fst p)) props"

definition new_Map :: "(string \<times> 'v) list \<Rightarrow> 'v js_map" where
  "new_Map pairs = foldl (\<lambda>m p. Map_set m (fst p) (snd p)) [] pairs"

definition Object_fromEntries :: "(string \<times> 'v) list \<Rightarrow> 'v js_object" where
  "Object_fromEntries pairs =
     ownPropertyOrder (foldl (\<lambda>m p. Map_set m (fst p) (snd p)) [] pairs)"

definition Object_entries :: "'v js_object \<Rightarrow> (string \<times> 'v) list" where
  "Object_entries obj = obj"

record Stats =
  stats_accessCount :: int
  stats_lastAccessed :: "int option"
  stats_createdAt :: int
  stats_ttl :: "js_number option"
  stats_isExpired :: bool
  stats_referrers :: "int js_object"
  stats_browserStats :: "int js_object"
  stats_qrCode :: "string option"

definition getStats :: "int \<Rightarrow> UrlEntry \<Rightarrow> Stats" where
  "getStats now e =
     \<lparr> stats_accessCount = accessCount e,
       stats_lastAccessed = lastAccessed e,
       stats_createdAt = createdAt e,
       stats_ttl = ttl e,
       stats_isExpired = isExpired now e,
       stats_referrers = Object_fromEntries (referrers e),
       stats_browserStats = Object_fromEntries (browserStats e),
       stats_qrCode = qrCode e \<rparr>"

text \<open>
  The object \<open>toJSON\<close> returns: the own properties of the entry, the two maps turned into
  plain objects.  An entry has no \<open>customSlug\<close> property, so the object has none either;
  the field is in the record because \<open>fromJSON\<close> reads it (\<open>None\<close> is \<open>undefined\<close>).
\<close>

record UrlEntryJSON =
  json_longUrl :: string
  json_shortId :: string
  json_createdAt :: int
  json_ttl :: "js_number option"
  json_accessCount :: int
  json_lastAccessed :: "int option"
  json_referrers :: "int js_object"
  json_browserStats :: "int js_object"
  json_qrCode :: "string option"
  json_customSlug :: "string option"

definition toJSON :: "UrlEntry \<Rightarrow> UrlEntryJSON" where
  "toJSON e =
     \<lparr> json_longUrl = longUrl e,
       json_shortId = shortId e,
       json_createdAt = createdAt e,
       json_ttl = ttl e,
       json_accessCount = accessCount e,
       json_lastAccessed = lastAccessed e,
       json_referrers = Object_fromEntries (referrers e),
       json_browserStats = Object_fromEntries (browserStats e),
       json_qrCode = qrCode e,
       json_customSlug = None \<rparr>"

definition fromJSON :: "UrlEntryJSON \<Rightarrow> UrlEntry" where
  "fromJSON json =
     (new_UrlEntry (json_longUrl json) (json_shortId json) (json_createdAt json)
        (json_ttl json) (json_customSlug json))
     \<lparr> accessCount := json_accessCount json,
       lastAccessed := json_lastAccessed json,
       referrers := new_Map (Object_entries (json_referrers json)),
       browserStats := new_Map (Object_entries (json_browserStats json)),
       qrCode := json_qrCode json \<rparr>"

subsection \<open>Helper functions\<close>

text \<open>\<open>/^[a-zA-Z0-9-_]+$/\<close>: one or more characters, each a letter, a digit, \<open>-\<close> or \<open>_\<close>.\<close>

definition isSlugChar :: "char \<Rightarrow> bool" where
  "isSlugChar c =
     (let n = (of_char c :: nat) in
      (97 \<le> n \<and> n \<le> 122) \<or> (65 \<le> n \<and> n \<le> 90) \<or> (48 \<le> n \<and> n \<le> 57)
      \<or> c = CHR ''-'' \<or> c = CHR ''_'')"

definition isValidCustomSlug :: "string \<Rightarrow> bool" where
  "isValidCustomSlug slug = (slug \<noteq> [] \<and> list_all isSlugChar slug)"

text \<open>
  \<open>cleanupExpiredUrls\<close>: the \<open>for ... of\<close> loop visits every entry of the table once, in
  order, and deletes the visited key from the table when its entry is expired.  The
  second component is \<open>hasChanges\<close> (the table is saved when it is set).
\<close>

fun cleanup_loop ::
  "int \<Rightarrow> UrlEntry js_map \<Rightarrow> UrlEntry js_map \<Rightarrow> bool \<Rightarrow> UrlEntry js_map \<times> bool" where
  "cleanup_loop now [] urlDatabase hasChanges = (urlDatabase, hasChanges)"
| "cleanup_loop now ((shortId', urlEntry) # rest) urlDatabase hasChanges =
     (if isExpired now urlEntry
      then cleanup_loop now rest (Map_delete urlDatabase shortId') True
      else cleanup_loop now rest urlDatabase hasChanges)"

definition cleanupExpiredUrls :: "int \<Rightarrow> UrlEntry js_map \<Rightarrow> UrlEntry js_map \<times> bool" where
  "cleanupExpiredUrls now urlDatabase = cleanup_loop now urlDatabase urlDatabase False"

subsection \<open>Routes\<close>

text \<open>
  What a handler sends: \<open>res.status(c).json({error: msg})\<close>, \<open>res.status(c).send(msg)\<close>,
  \<open>res.json\<close> of a short id, a long URL and the statistics, \<open>res.redirect(url)\<close>, and the
  health counters.
\<close>

datatype response =
    Error_json nat string
  | Send nat string
  | Json string string Stats
  | Redirect string
  | Health nat nat nat

text \<open>
  The body and the headers of \<open>POST /api/shorten\<close>.  What the handler takes from outside
  the program is passed in: \<open>isWebUri\<close> (the \<open>valid-url\<close> check), \<open>parseInt\<close> (the
  JavaScript built-in, any function from values to numbers), \<open>generated\<close> (the value
  \<open>generateShortId()\<close> returns when it is called) and \<open>toDataURL\<close> (the QR encoder, \<open>None\<close>
  when it fails).
\<close>

text \<open>The test of the loop that looks for an existing URL.\<close>

definition liveMatch :: "int \<Rightarrow> string \<Rightarrow> string \<times> UrlEntry \<Rightarrow> bool" where
  "liveMatch now longUrl' p = (longUrl (snd p) = longUrl' \<and> \<not> isExpired now (snd p))"

text \<open>
  The table \<open>urlDatabase\<close> stores every entry under its own short id: \<open>set\<close> is called
  with the \<open>shortId\<close> the constructor was given, and a saved table is read back key by key.
\<close>

definition ids_ok :: "UrlEntry js_map \<Rightarrow> bool" where
  "ids_ok urlDatabase = list_all (\<lambda>p. shortId (snd p) = fst p) urlDatabase"

record shorten_request =
  body_longUrl :: string
  body_ttl :: js_value
  body_customSlug :: "string option"
  req_protocol :: string
  req_host :: string

definition shorten ::
  "(string \<Rightarrow> bool) \<Rightarrow> (js_value \<Rightarrow> js_number) \<Rightarrow> string \<Rightarrow> (string \<Rightarrow> string option)
   \<Rightarrow> int \<Rightarrow> shorten_request \<Rightarrow> UrlEntry js_map \<Rightarrow> response \<times> UrlEntry js_map" where
  "shorten isWebUri parseInt generated toDataURL now req urlDatabase =
     (let longUrl' = body_longUrl req; customSlug = body_customSlug req in
      if \<not> isWebUri longUrl' then (Error_json 400 ''Invalid URL format'', urlDatabase)
      else if slug_given customSlug \<and> \<not> isValidCustomSlug (the customSlug)
        then (Error_json 400 ''Invalid custom slug format'', urlDatabase)
      else if slug_given customSlug \<and> Map_has urlDatabase (the customSlug)
        then (Error_json 409 ''Custom slug already in use'', urlDatabase)
      else
        (case find (liveMatch now longUrl') urlDatabase of
           Some (existingShortId, urlEntry) \<Rightarrow>
             (Json existingShortId longUrl' (getStats now urlEntry), urlDatabase)
         | None \<Rightarrow>
             (let shortId' = (if slug_given customSlug then the customSlug else generated);
                  urlEntry0 = new_UrlEntry longUrl' shortId' now
                    (if truthy (body_ttl req) then Some (parseInt (body_ttl req)) else None)
                    customSlug;
                  fullUrl = req_protocol req @ ''://'' @ req_host req @ ''/'' @ shortId';
                  urlEntry = urlEntry0\<lparr> qrCode := toDataURL fullUrl \<rparr>
              in (Json shortId' longUrl' (getStats now urlEntry),
                  Map_set urlDatabase shortId' urlEntry))))"

text \<open>
  \<open>GET /:shortId\<close>.  \<open>req.get('Referrer') || 'Direct'\<close>: a missing or empty header gives the
  default.  \<open>updateStats\<close> mutates the entry the table holds, so the table has the updated
  entry at the same place.
\<close>

definition header_or :: "string option \<Rightarrow> string \<Rightarrow> string" where
  "header_or h d = (case h of None \<Rightarrow> d | Some s \<Rightarrow> if s = [] then d else s)"

record redirect_request =
  param_shortId :: string
  header_Referrer :: "string option"
  header_UserAgent :: "string option"

definition redirect ::
  "int \<Rightarrow> redirect_request \<Rightarrow> UrlEntry js_map \<Rightarrow> response \<times> UrlEntry js_map" where
  "redirect now req urlDatabase =
     (let shortId' = param_shortId req in
      case Map_get urlDatabase shortId' of
        None \<Rightarrow> (Send 404 ''URL not found'', urlDatabase)
      | Some urlEntry \<Rightarrow>
          if isExpired now urlEntry
          then (Send 404 ''URL has expired'', Map_delete urlDatabase shortId')
          else (Redirect (longUrl urlEntry),
                Map_set urlDatabase shortId'
                  (updateStats now (header_or (header_Referrer req) ''Direct'')
                     (header_or (header_UserAgent req) ''Unknown'') urlEntry)))"

text \<open>\<open>GET /api/stats/:shortId\<close> and \<open>GET /api/health\<close> read the table only.\<close>

definition stats :: "int \<Rightarrow> string \<Rightarrow> UrlEntry js_map \<Rightarrow> response" where
  "stats now shortId' urlDatabase =
     (case Map_get urlDatabase shortId' of
        None \<Rightarrow> Error_json 404 ''URL not found''
      | Some urlEntry \<Rightarrow> Json (shortId urlEntry) (longUrl urlEntry) (getStats now urlEntry))"

definition health :: "int \<Rightarrow> UrlEntry js_map \<Rightarrow> response" where
  "health now urlDatabase =
     Health (length urlDatabase)
       (length (filter (\<lambda>url. \<not> isExpired now url) (map snd urlDatabase)))
       (length (filter (\<lambda>url. isExpired now url) (map snd urlDatabase)))"

subsection \<open>The server as a transition system\<close>

text \<open>
  Every request, and every firing of the hourly cleanup timer, is one step on the table,
  taken at the time the clock shows.  A run is a sequence of timed steps.
\<close>

datatype operation =
    Op_shorten string "string \<Rightarrow> string option" shorten_request
  | Op_redirect redirect_request
  | Op_stats string
  | Op_health
  | Op_cleanup

fun step ::
  "(string \<Rightarrow> bool) \<Rightarrow> (js_value \<Rightarrow> js_number) \<Rightarrow> int \<Rightarrow> operation
   \<Rightarrow> UrlEntry js_map \<Rightarrow> UrlEntry js_map" where
  "step isWebUri parseInt now (Op_shorten generated toDataURL req) urlDatabase =
     snd (shorten isWebUri parseInt generated toDataURL now req urlDatabase)"
| "step isWebUri parseInt now (Op_redirect req) urlDatabase = snd (redirect now req urlDatabase)"
| "step isWebUri parseInt now (Op_stats shortId') urlDatabase = urlDatabase"
| "step isWebUri parseInt now Op_health urlDatabase = urlDatabase"
| "step isWebUri parseInt now Op_cleanup urlDatabase = fst (cleanupExpiredUrls now urlDatabase)"

fun run ::
  "(string \<Rightarrow> bool) \<Rightarrow> (js_value \<Rightarrow> js_number) \<Rightarrow> (int \<times> operation) list
   \<Rightarrow> UrlEntry js_map \<Rightarrow> UrlEntry js_map" where
  "run isWebUri parseInt [] urlDatabase = urlDatabase"
| "run isWebUri parseInt ((now, op) # rest) urlDatabase =
     run isWebUri parseInt rest (step isWebUri parseInt now op urlDatabase)"

text \<open>A redirect request for the short id \<open>k\<close>.\<close>

fun redirects_to :: "string \<Rightarrow> operation \<Rightarrow> bool" where
  "redirects_to k (Op_redirect req) = (param_shortId req = k)"
| "redirects_to k _ = False"

text \<open>A create request without a custom slug for which \<open>generateShortId()\<close> returns \<open>k\<close>.\<close>

fun generates :: "string \<Rightarrow> operation \<Rightarrow> bool" where
  "generates k (Op_shorten generated toDataURL req) =
     (\<not> slug_given (body_customSlug req) \<and> generated = k)"
| "generates k _ = False"

subsection \<open>Sample data\<close>

text \<open>
  Stand-ins for the URL check, for \<open>parseInt\<close> and for the QR encoder, and a small table,
  to run the handlers on concrete requests.  The stand-in for \<open>parseInt\<close> has the values
  of \<open>parseInt\<close> at the arguments the examples pass (a small integer, the strings \<open>0\<close>
  and \<open>abc\<close>).  The theorems below hold for every check, every function in the place
  of \<open>parseInt\<close>, every encoder and every table.
\<close>

definition sample_isWebUri :: "string \<Rightarrow> bool" where
  "sample_isWebUri url = (startsWith url ''http://'' \<or> startsWith url ''https://'')"

definition sample_parseInt :: "js_value \<Rightarrow> js_number" where
  "sample_parseInt v =
     (case v of JNumber n \<Rightarrow> Num n
              | JString s \<Rightarrow> if s = ''0'' then Num 0 else NaN
              | _ \<Rightarrow> NaN)"

definition sample_toDataURL :: "string \<Rightarrow> string option" where
  "sample_toDataURL url = Some (''data:image/png;base64,'' @ url)"

definition entry_live :: UrlEntry where
  "entry_live = new_UrlEntry ''https://example.com'' ''0a1b2c3d'' 1000 None None"

definition entry_old :: UrlEntry where
  "entry_old = new_UrlEntry ''https://example.org'' ''[random]'' 0 (Some (Num 1000)) (Some ''promo'')"

definition entry_seen :: UrlEntry where
  "entry_seen = updateStats 3000 ''10'' ''Mozilla/5.0 Firefox/121.0''
                  (updateStats 2000 ''https://news.example/'' ''curl/8.5.0'' entry_live)"

definition entry_clash :: UrlEntry where
  "entry_clash = (new_UrlEntry ''https://example.net'' ''0a1b2c3d'' 5000 None None)
     \<lparr> qrCode := sample_toDataURL ''http://localhost:3001/0a1b2c3d'' \<rparr>"

definition sample_table :: "UrlEntry js_map" where
  "sample_table = [(''0a1b2c3d'', entry_live), (''promo'', entry_old)]"

definition entry_new :: UrlEntry where
  "entry_new = (new_UrlEntry ''https://example.net'' ''deadbeef'' 5000 None None)
     \<lparr> qrCode := sample_toDataURL ''http://localhost:3001/deadbeef'' \<rparr>"

definition sample_request :: "string \<Rightarrow> js_value \<Rightarrow> string option \<Rightarrow> shorten_request" where
  "sample_request url t slug =
     \<lparr> body_longUrl = url, body_ttl = t, body_customSlug = slug,
       req_protocol = ''http'', req_host = ''localhost:3001'' \<rparr>"

section \<open>The table as a \<open>Map\<close>\<close>

lemma Map_get_set: "Map_get (Map_set m k v) k' = (if k' = k then Some v else Map_get m k')"
  by (induction m) (auto simp: Map_get_def)

lemma Map_delete_filter: "Map_delete m k = filter (\<lambda>p. fst p \<noteq> k) m"
  by (induction m) auto

lemma Map_get_delete: "Map_get (Map_delete m k) k' = (if k' = k then None else Map_get m k')"
  by (induction m) (auto simp: Map_get_def)

lemma map_fst_Map_set:
  "map fst (Map_set m k v) = (if k \<in> set (map fst m) then map fst m else map fst m @ [k])"
  by (induction m) (fastforce simp: image_iff)+

lemma Map_ok_set: "Map_ok m \<Longrightarrow> Map_ok (Map_set m k v)"
  by (simp add: Map_ok_def map_fst_Map_set)

lemma Map_ok_delete: "Map_ok m \<Longrightarrow> Map_ok (Map_delete m k)"
  by (simp add: Map_ok_def Map_delete_filter distinct_map_filter)

lemma Map_get_member: "Map_ok m \<Longrightarrow> (k, v) \<in> set m \<Longrightarrow> Map_get m k = Some v"
  by (simp add: Map_ok_def Map_get_def)

lemma Map_get_SomeD: "Map_get m k = Some v \<Longrightarrow> (k, v) \<in> set m"
  by (simp add: Map_get_def map_of_SomeD)

lemma Map_has_iff: "Map_has m k \<longleftrightarrow> k \<in> fst ` set m"
  by (simp add: Map_has_def Map_get_def map_of_eq_None_iff)

lemma set_Map_set_subset: "set (Map_set m k v) \<subseteq> insert (k, v) (set m)"
  by (induction m) (auto split: if_splits)

lemma Map_set_member: "(k, v) \<in> set (Map_set m k v)"
  by (induction m) auto

lemma ids_ok_iff: "ids_ok db \<longleftrightarrow> (\<forall>p \<in> set db. shortId (snd p) = fst p)"
  by (simp add: ids_ok_def list_all_iff)

lemma ids_ok_set: "ids_ok db \<Longrightarrow> shortId v = k \<Longrightarrow> ids_ok (Map_set db k v)"
  using set_Map_set_subset [of db k v] by (auto simp: ids_ok_iff)

lemma ids_ok_filter: "ids_ok db \<Longrightarrow> ids_ok (filter P db)"
  by (simp add: ids_ok_iff)

section \<open>Expiry\<close>

lemma updateStats_frame:
  "createdAt (updateStats now r u e) = createdAt e"
  "ttl (updateStats now r u e) = ttl e"
  "longUrl (updateStats now r u e) = longUrl e"
  "shortId (updateStats now r u e) = shortId e"
  "qrCode (updateStats now r u e) = qrCode e"
  by (simp_all add: updateStats_def)

lemma isExpired_updateStats: "isExpired t (updateStats now r u e) = isExpired t e"
  by (simp add: isExpired_def updateStats_frame split: option.splits js_number.splits)

lemma isExpired_mono: "isExpired now e \<Longrightarrow> now \<le> now' \<Longrightarrow> isExpired now' e"
  by (auto simp: isExpired_def split: option.splits js_number.splits if_splits)

text \<open>
  Claim C4.  With a positive integer ttl an entry is expired exactly when
  \<open>now > createdAt + ttl\<close>; with no ttl it is never expired; the predicate is monotone in
  \<open>now\<close>, also across the only mutation of an entry (\<open>updateStats\<close>), which leaves
  \<open>createdAt\<close> and \<open>ttl\<close> as they are.
\<close>

theorem C4_isExpired:
  "(ttl e = Some (Num t) \<and> 0 < t \<longrightarrow> (isExpired now e \<longleftrightarrow> now > createdAt e + t))
   \<and> (ttl e = None \<longrightarrow> \<not> isExpired now e)
   \<and> createdAt (updateStats now r u e) = createdAt e
   \<and> ttl (updateStats now r u e) = ttl e
   \<and> (isExpired now e \<and> now \<le> now' \<longrightarrow> isExpired now' e \<and> isExpired now' (updateStats now r u e))"
  using isExpired_mono [of now e now']
  by (auto simp: isExpired_updateStats updateStats_frame) (simp_all add: isExpired_def)

theorem C4_isExpired_witness:
  "ttl (new_UrlEntry ''https://example.com'' ''0a1b2c3d'' 0 (Some (Num 1000)) None) = Some (Num 1000)
   \<and> (0::int) < 1000
   \<and> isExpired 1001 (new_UrlEntry ''https://example.com'' ''0a1b2c3d'' 0 (Some (Num 1000)) None)
   \<and> \<not> isExpired 1000 (new_UrlEntry ''https://example.com'' ''0a1b2c3d'' 0 (Some (Num 1000)) None)
   \<and> (1001::int) \<le> 5000
   \<and> isExpired 5000 (updateStats 1001 ''Direct'' ''Unknown''
         (new_UrlEntry ''https://example.com'' ''0a1b2c3d'' 0 (Some (Num 1000)) None))
   \<and> ttl (new_UrlEntry ''https://example.com'' ''0a1b2c3d'' 0 None None) = None
   \<and> \<not> isExpired 5000 (new_UrlEntry ''https://example.com'' ''0a1b2c3d'' 0 None None)"
  using C4_isExpired [of "new_UrlEntry ''https://example.com'' ''0a1b2c3d'' 0 (Some (Num 1000)) None"
      1000 1001 "''Direct''" "''Unknown''" 5000]
    C4_isExpired [of "new_UrlEntry ''https://example.com'' ''0a1b2c3d'' 0 (Some (Num 1000)) None"
      1000 1000 "''Direct''" "''Unknown''" 5000]
    C4_isExpired [of "new_UrlEntry ''https://example.com'' ''0a1b2c3d'' 0 None None"
      1000 5000 "''Direct''" "''Unknown''" 5000]
  by (simp add: new_UrlEntry_def)

section \<open>Creating a short URL\<close>

lemma find_Some_member: "find P xs = Some x \<Longrightarrow> x \<in> set xs \<and> P x"
  by (induction xs) (auto split: if_splits)

lemma find_None_all: "find P xs = None \<Longrightarrow> x \<in> set xs \<Longrightarrow> \<not> P x"
  by (induction xs) (auto split: if_splits)

lemma shorten_hit:
  assumes "isWebUri (body_longUrl req)"
    and "slug_given (body_customSlug req) \<Longrightarrow>
           isValidCustomSlug (the (body_customSlug req)) \<and> \<not> Map_has db (the (body_customSlug req))"
    and "find (liveMatch now (body_longUrl req)) db = Some (k, e)"
  shows "shorten isWebUri parseInt gen qr now req db = (Json k (body_longUrl req) (getStats now e), db)"
  using assms by (auto simp: shorten_def Let_def)

lemma shorten_miss:
  assumes "isWebUri (body_longUrl req)"
    and "slug_given (body_customSlug req) \<Longrightarrow>
           isValidCustomSlug (the (body_customSlug req)) \<and> \<not> Map_has db (the (body_customSlug req))"
    and "find (liveMatch now (body_longUrl req)) db = None"
    and "sid = (if slug_given (body_customSlug req) then the (body_customSlug req) else gen)"
    and "ent = (new_UrlEntry (body_longUrl req) sid now
                 (if truthy (body_ttl req) then Some (parseInt (body_ttl req)) else None)
                 (body_customSlug req))
               \<lparr> qrCode := qr (req_protocol req @ ''://'' @ req_host req @ ''/'' @ sid) \<rparr>"
  shows "shorten isWebUri parseInt gen qr now req db =
           (Json sid (body_longUrl req) (getStats now ent), Map_set db sid ent)"
  using assms by (auto simp: shorten_def Let_def)

lemma find_first:
  assumes "x \<in> set xs" "P x"
  shows "\<exists>y. find P xs = Some y \<and> y \<in> set xs \<and> P y"
  using assms by (induction xs) auto

lemma find_only:
  assumes "x \<in> set xs" "P x" "\<forall>y \<in> set xs. P y \<longrightarrow> y = x"
  shows "find P xs = Some x"
proof -
  obtain y where y: "find P xs = Some y" "y \<in> set xs" "P y"
    using find_first [of x xs P] assms(1,2) by blast
  then have "y = x" using assms(3) by blast
  then show ?thesis using y(1) by simp
qed

lemma find_antitone:
  assumes "find P xs = Some x" "Q x" "\<forall>y \<in> set xs. Q y \<longrightarrow> P y"
  shows "find Q xs = Some x"
  using assms by (induction xs) (auto split: if_splits)

lemma liveMatch_antitone:
  "now \<le> now' \<Longrightarrow> liveMatch now' u p \<Longrightarrow> liveMatch now u p"
  using isExpired_mono [of now "snd p" now'] by (auto simp: liveMatch_def)

lemma shorten_Json_valid:
  assumes "shorten isWebUri parseInt gen qr now req db = (Json s u st, db')"
  shows "isWebUri (body_longUrl req) \<and> u = body_longUrl req"
  using assms by (auto simp: shorten_def Let_def split: if_splits option.splits)

lemma new_entry_fields:
  "longUrl ((new_UrlEntry u sid now t cs)\<lparr> qrCode := q \<rparr>) = u"
  "accessCount ((new_UrlEntry u sid now t cs)\<lparr> qrCode := q \<rparr>) = 0"
  "ttl ((new_UrlEntry u sid now t cs)\<lparr> qrCode := q \<rparr>) = t"
  "createdAt ((new_UrlEntry u sid now t cs)\<lparr> qrCode := q \<rparr>) = now"
  by (simp_all add: new_UrlEntry_def)

lemma shorten_dedup_hit:
  assumes "isWebUri (body_longUrl req)"
    and "slug_given (body_customSlug req) \<Longrightarrow>
           isValidCustomSlug (the (body_customSlug req)) \<and> \<not> Map_has db (the (body_customSlug req))"
    and "(k, e) \<in> set db" and "longUrl e = body_longUrl req" and "\<not> isExpired now e"
  shows "\<exists>k' e'. shorten isWebUri parseInt gen qr now req db
             = (Json k' (body_longUrl req) (getStats now e'), db)
           \<and> (k', e') \<in> set db \<and> longUrl e' = body_longUrl req \<and> \<not> isExpired now e'
           \<and> ((\<forall>p \<in> set db. liveMatch now (body_longUrl req) p \<longrightarrow> p = (k, e))
                \<longrightarrow> k' = k \<and> e' = e)
           \<and> (ids_ok db \<longrightarrow> shortId e' = k')"
proof -
  have "liveMatch now (body_longUrl req) (k, e)"
    using assms(4,5) by (simp add: liveMatch_def)
  then obtain y where y: "find (liveMatch now (body_longUrl req)) db = Some y"
      "y \<in> set db" "liveMatch now (body_longUrl req) y"
    using find_first [of "(k, e)" db "liveMatch now (body_longUrl req)"] assms(3) by auto
  obtain k' e' where ke: "y = (k', e')" by (cases y)
  have res: "shorten isWebUri parseInt gen qr now req db = (Json k' (body_longUrl req) (getStats now e'), db)"
    using y(1) ke assms(1,2) by (intro shorten_hit) simp_all
  have only: "k' = k \<and> e' = e"
    if "\<forall>p \<in> set db. liveMatch now (body_longUrl req) p \<longrightarrow> p = (k, e)"
    using that y(2,3) ke by blast
  have live: "longUrl e' = body_longUrl req \<and> \<not> isExpired now e'"
    using y(3) ke by (simp add: liveMatch_def)
  have mem: "(k', e') \<in> set db" using y(2) ke by simp
  have ids: "ids_ok db \<longrightarrow> shortId e' = k'"
    using mem by (auto simp: ids_ok_def list_all_iff)
  show ?thesis
    apply (rule exI [of _ k'], rule exI [of _ e'])
    apply (simp only: res)
    using only live mem ids apply blast
    done
qed

lemma shorten_twice:
  assumes first: "shorten isWebUri parseInt gen qr now req db = (Json s1 u1 st1, db1)"
    and ok: "Map_ok db"
    and noslug: "\<not> slug_given (body_customSlug req)"
    and same: "body_longUrl req2 = body_longUrl req"
    and noslug2: "\<not> slug_given (body_customSlug req2)"
    and later: "now \<le> now2"
    and held: "Map_get db1 s1 = Some e1"
    and live2: "\<not> isExpired now2 e1"
  shows "shorten isWebUri parseInt gen2 qr2 now2 req2 db1 = (Json s1 u1 (getStats now2 e1), db1)"
proof -
  let ?u = "body_longUrl req"
  have valid: "isWebUri ?u" and u1: "u1 = ?u"
    using shorten_Json_valid [OF first] by simp_all
  have slug: "slug_given (body_customSlug req) \<Longrightarrow>
      isValidCustomSlug (the (body_customSlug req)) \<and> \<not> Map_has db (the (body_customSlug req))"
    using noslug by simp
  have anti: "\<forall>p. liveMatch now2 ?u p \<longrightarrow> liveMatch now ?u p"
    using liveMatch_antitone [OF later] by blast
  have found: "find (liveMatch now2 ?u) db1 = Some (s1, e1)"
  proof (cases "find (liveMatch now ?u) db")
    case (Some y)
    obtain k' e' where ke: "y = (k', e')" by (cases y)
    have "shorten isWebUri parseInt gen qr now req db = (Json k' ?u (getStats now e'), db)"
      using Some ke valid slug by (intro shorten_hit) simp_all
    then have eqs: "s1 = k'" "db1 = db" using first by simp_all
    have mem: "(k', e') \<in> set db" and lm: "liveMatch now ?u (k', e')"
      using find_Some_member [OF Some] ke by simp_all
    have "Map_get db k' = Some e'" using Map_get_member [OF ok mem] .
    then have e1: "e1 = e'" using held eqs by simp
    have "liveMatch now2 ?u (k', e')"
      using lm live2 e1 by (simp add: liveMatch_def)
    then have "find (liveMatch now2 ?u) db = Some (k', e')"
      using find_antitone [of "liveMatch now ?u" db "(k', e')" "liveMatch now2 ?u"] Some ke anti
      by blast
    then show ?thesis using eqs e1 by simp
  next
    case None
    define ent where "ent = (new_UrlEntry ?u gen now
                 (if truthy (body_ttl req) then Some (parseInt (body_ttl req)) else None)
                 (body_customSlug req))
               \<lparr> qrCode := qr (req_protocol req @ ''://'' @ req_host req @ ''/'' @ gen) \<rparr>"
    have "shorten isWebUri parseInt gen qr now req db = (Json gen ?u (getStats now ent), Map_set db gen ent)"
      using None valid slug noslug ent_def by (intro shorten_miss) simp_all
    then have eqs: "s1 = gen" "db1 = Map_set db gen ent" using first by simp_all
    have e1: "e1 = ent" using held eqs by (simp add: Map_get_set)
    have lm2: "liveMatch now2 ?u (gen, ent)"
      using live2 e1 by (simp add: liveMatch_def ent_def new_entry_fields)
    have mem: "(gen, ent) \<in> set db1" using eqs Map_set_member by simp
    have "p = (gen, ent)" if p: "p \<in> set db1" "liveMatch now2 ?u p" for p
    proof (rule ccontr)
      assume "p \<noteq> (gen, ent)"
      then have "p \<in> set db" using p(1) eqs set_Map_set_subset [of db gen ent] by auto
      then have "\<not> liveMatch now ?u p" using find_None_all [OF None] by blast
      then show False using anti p(2) by blast
    qed
    then have "find (liveMatch now2 ?u) db1 = Some (gen, ent)"
      using find_only [of "(gen, ent)" db1 "liveMatch now2 ?u"] mem lm2 by blast
    then show ?thesis using eqs e1 by simp
  qed
  have "shorten isWebUri parseInt gen2 qr2 now2 req2 db1 = (Json s1 (body_longUrl req2) (getStats now2 e1), db1)"
    using found valid same noslug2 by (intro shorten_hit) simp_all
  then show ?thesis using same u1 by simp
qed

lemma sample_facts:
  "sample_isWebUri ''https://example.com''"
  "sample_isWebUri ''https://example.net''"
  "isValidCustomSlug ''promo''"
  "isValidCustomSlug ''home''"
  "Map_ok sample_table"
  "Map_get sample_table ''promo'' = Some entry_old"
  "Map_get sample_table ''0a1b2c3d'' = Some entry_live"
  "Map_get sample_table ''home'' = None"
  "(''0a1b2c3d'', entry_live) \<in> set sample_table"
  "isExpired 5000 entry_old"
  "\<not> isExpired 5000 entry_live"
  "\<not> isExpired 6000 entry_live"
  "longUrl entry_live = ''https://example.com''"
  "longUrl entry_old = ''https://example.org''"
  by (simp_all add: sample_isWebUri_def isValidCustomSlug_def isSlugChar_def sample_table_def
      Map_ok_def Map_get_def isExpired_def entry_old_def entry_live_def new_UrlEntry_def)

lemma sample_request_fields:
  "body_longUrl (sample_request url t slug) = url"
  "body_ttl (sample_request url t slug) = t"
  "body_customSlug (sample_request url t slug) = slug"
  "req_protocol (sample_request url t slug) = ''http''"
  "req_host (sample_request url t slug) = ''localhost:3001''"
  by (simp_all add: sample_request_def)

text \<open>
  Claim C1.  A request with a valid \<open>longUrl\<close> and no custom slug, on a table that holds a
  live entry with exactly that \<open>longUrl\<close>, answers with the key of a live entry with that
  \<open>longUrl\<close> (the first one in the table; the given one when it is the only one) and with
  its statistics, and leaves the table, hence the entry, as it was.  The key is the
  \<open>shortId\<close> of the entry, in a table that stores entries under their short ids.  So when a request
  was answered with a short id and the entry under that id is still live, a second
  request for the same \<open>longUrl\<close>, at the same time or later, is answered with the same
  short id and changes nothing.
\<close>

theorem C1_idempotent_dedup:
  "(isWebUri (body_longUrl req) \<and> \<not> slug_given (body_customSlug req)
      \<and> (k, e) \<in> set db \<and> longUrl e = body_longUrl req \<and> \<not> isExpired now e
    \<longrightarrow> (\<exists>k' e'. shorten isWebUri parseInt gen qr now req db
                   = (Json k' (body_longUrl req) (getStats now e'), db)
               \<and> (k', e') \<in> set db \<and> longUrl e' = body_longUrl req \<and> \<not> isExpired now e'
               \<and> ((\<forall>p \<in> set db. liveMatch now (body_longUrl req) p \<longrightarrow> p = (k, e))
                    \<longrightarrow> k' = k \<and> e' = e)
               \<and> (ids_ok db \<longrightarrow> shortId e' = k')))
   \<and> (shorten isWebUri parseInt gen qr now req db = (Json s1 u1 st1, db1) \<and> Map_ok db
      \<and> \<not> slug_given (body_customSlug req)
      \<and> body_longUrl req2 = body_longUrl req \<and> \<not> slug_given (body_customSlug req2)
      \<and> now \<le> now2 \<and> Map_get db1 s1 = Some e1 \<and> \<not> isExpired now2 e1
    \<longrightarrow> shorten isWebUri parseInt gen2 qr2 now2 req2 db1 = (Json s1 u1 (getStats now2 e1), db1))"
proof (intro conjI impI)
  assume h: "isWebUri (body_longUrl req) \<and> \<not> slug_given (body_customSlug req)
      \<and> (k, e) \<in> set db \<and> longUrl e = body_longUrl req \<and> \<not> isExpired now e"
  show "\<exists>k' e'. shorten isWebUri parseInt gen qr now req db
                   = (Json k' (body_longUrl req) (getStats now e'), db)
               \<and> (k', e') \<in> set db \<and> longUrl e' = body_longUrl req \<and> \<not> isExpired now e'
               \<and> ((\<forall>p \<in> set db. liveMatch now (body_longUrl req) p \<longrightarrow> p = (k, e))
                    \<longrightarrow> k' = k \<and> e' = e)
               \<and> (ids_ok db \<longrightarrow> shortId e' = k')"
    using h by (intro shorten_dedup_hit) simp_all
next
  assume h: "shorten isWebUri parseInt gen qr now req db = (Json s1 u1 st1, db1) \<and> Map_ok db
      \<and> \<not> slug_given (body_customSlug req)
      \<and> body_longUrl req2 = body_longUrl req \<and> \<not> slug_given (body_customSlug req2)
      \<and> now \<le> now2 \<and> Map_get db1 s1 = Some e1 \<and> \<not> isExpired now2 e1"
  show "shorten isWebUri parseInt gen2 qr2 now2 req2 db1 = (Json s1 u1 (getStats now2 e1), db1)"
    using h by (intro shorten_twice [of isWebUri parseInt gen qr now req db s1 u1 st1 db1]) simp_all
qed

theorem C1_idempotent_dedup_witness:
  "(sample_isWebUri (body_longUrl (sample_request ''https://example.com'' JUndefined None))
      \<and> \<not> slug_given (body_customSlug (sample_request ''https://example.com'' JUndefined None))
      \<and> (''0a1b2c3d'', entry_live) \<in> set sample_table
      \<and> longUrl entry_live = body_longUrl (sample_request ''https://example.com'' JUndefined None)
      \<and> \<not> isExpired 5000 entry_live
      \<and> filter (liveMatch 5000 ''https://example.com'') sample_table
          = [(''0a1b2c3d'', entry_live)]
      \<and> ids_ok sample_table \<and> shortId entry_live = ''0a1b2c3d'')
   \<and> shorten sample_isWebUri sample_parseInt ''deadbeef'' sample_toDataURL 5000
        (sample_request ''https://example.com'' JUndefined None) sample_table
      = (Json ''0a1b2c3d'' ''https://example.com'' (getStats 5000 entry_live), sample_table)
   \<and> shorten sample_isWebUri sample_parseInt ''deadbeef'' sample_toDataURL 5000
        (sample_request ''https://example.net'' JUndefined None) sample_table
      = (Json ''deadbeef'' ''https://example.net'' (getStats 5000 entry_new),
         Map_set sample_table ''deadbeef'' entry_new)
   \<and> Map_ok sample_table \<and> (5000::int) \<le> 6000
   \<and> Map_get (Map_set sample_table ''deadbeef'' entry_new) ''deadbeef'' = Some entry_new
   \<and> \<not> isExpired 6000 entry_new
   \<and> shorten sample_isWebUri sample_parseInt ''cafebabe'' sample_toDataURL 6000
        (sample_request ''https://example.net'' (JNumber 60000) None)
        (Map_set sample_table ''deadbeef'' entry_new)
      = (Json ''deadbeef'' ''https://example.net'' (getStats 6000 entry_new),
         Map_set sample_table ''deadbeef'' entry_new)"
proof -
  let ?req = "sample_request ''https://example.com'' JUndefined None"
  let ?req1 = "sample_request ''https://example.net'' JUndefined None"
  let ?req2 = "sample_request ''https://example.net'' (JNumber 60000) None"
  let ?db1 = "Map_set sample_table ''deadbeef'' entry_new"
  have h: "sample_isWebUri (body_longUrl ?req)
      \<and> \<not> slug_given (body_customSlug ?req)
      \<and> (''0a1b2c3d'', entry_live) \<in> set sample_table
      \<and> longUrl entry_live = body_longUrl ?req
      \<and> \<not> isExpired 5000 entry_live"
    by (simp add: sample_facts sample_request_fields slug_given_def)
  have f: "filter (liveMatch 5000 ''https://example.com'') sample_table
          = [(''0a1b2c3d'', entry_live)]"
    by (simp add: sample_table_def liveMatch_def sample_facts)
  have u: "\<forall>p \<in> set sample_table. liveMatch 5000 ''https://example.com'' p
             \<longrightarrow> p = (''0a1b2c3d'', entry_live)"
    by (simp add: sample_table_def liveMatch_def sample_facts)
  have ids: "ids_ok sample_table \<and> shortId entry_live = ''0a1b2c3d''"
    by (simp add: ids_ok_def sample_table_def entry_live_def entry_old_def new_UrlEntry_def
        slug_given_def)
  have hit: "shorten sample_isWebUri sample_parseInt ''deadbeef'' sample_toDataURL 5000 ?req sample_table
      = (Json ''0a1b2c3d'' ''https://example.com'' (getStats 5000 entry_live), sample_table)"
    using h u C1_idempotent_dedup [of sample_isWebUri ?req "''0a1b2c3d''" entry_live sample_table 5000
        sample_parseInt "''deadbeef''" sample_toDataURL]
    by (auto simp: sample_request_fields)
  have "find (liveMatch 5000 ''https://example.net'') sample_table = None"
    by (simp add: sample_table_def liveMatch_def sample_facts)
  then have first: "shorten sample_isWebUri sample_parseInt ''deadbeef'' sample_toDataURL 5000 ?req1 sample_table
      = (Json ''deadbeef'' ''https://example.net'' (getStats 5000 entry_new), ?db1)"
    using shorten_miss [where isWebUri = sample_isWebUri and parseInt = sample_parseInt
        and req = ?req1 and db = sample_table and now = 5000 and gen = "''deadbeef''" and qr = sample_toDataURL
        and sid = "''deadbeef''" and ent = entry_new]
    by (simp add: sample_facts sample_request_fields slug_given_def entry_new_def)
  have h2: "Map_ok sample_table \<and> (5000::int) \<le> 6000
      \<and> Map_get ?db1 ''deadbeef'' = Some entry_new \<and> \<not> isExpired 6000 entry_new
      \<and> \<not> slug_given (body_customSlug ?req1)
      \<and> body_longUrl ?req2 = body_longUrl ?req1
      \<and> \<not> slug_given (body_customSlug ?req2)"
    by (simp add: sample_facts sample_request_fields slug_given_def Map_get_set
        isExpired_def entry_new_def new_UrlEntry_def)
  have second: "shorten sample_isWebUri sample_parseInt ''cafebabe'' sample_toDataURL 6000 ?req2 ?db1
      = (Json ''deadbeef'' ''https://example.net'' (getStats 6000 entry_new), ?db1)"
    using first h2 C1_idempotent_dedup [of sample_isWebUri ?req1 _ _ sample_table 5000
        sample_parseInt "''deadbeef''" sample_toDataURL "''deadbeef''" "''https://example.net''"
        "getStats 5000 entry_new" ?db1 ?req2 6000 entry_new "''cafebabe''" sample_toDataURL]
    by blast
  show ?thesis using h f ids hit first h2 second by blast
qed

text \<open>
  Claim C2.  A request with a valid \<open>longUrl\<close> and a well-formed custom slug that is a key
  of the table, whatever entry it holds (expired or live) and whatever else the table
  holds (also a live entry with the same \<open>longUrl\<close>), is refused with status 409, and the
  table is unchanged.
\<close>

theorem C2_slug_taken:
  assumes "isWebUri (body_longUrl req)"
    and "body_customSlug req = Some slug"
    and "isValidCustomSlug slug"
    and "Map_get db slug = Some held"
  shows "shorten isWebUri parseInt gen qr now req db = (Error_json 409 ''Custom slug already in use'', db)"
  using assms by (auto simp: shorten_def Let_def slug_given_def isValidCustomSlug_def Map_has_def)

theorem C2_slug_taken_witness:
  "sample_isWebUri (body_longUrl (sample_request ''https://example.com'' JUndefined (Some ''promo'')))
   \<and> body_customSlug (sample_request ''https://example.com'' JUndefined (Some ''promo'')) = Some ''promo''
   \<and> isValidCustomSlug ''promo''
   \<and> Map_get sample_table ''promo'' = Some entry_old \<and> isExpired 5000 entry_old
   \<and> (''0a1b2c3d'', entry_live) \<in> set sample_table
   \<and> longUrl entry_live = ''https://example.com'' \<and> \<not> isExpired 5000 entry_live
   \<and> shorten sample_isWebUri sample_parseInt ''deadbeef'' sample_toDataURL 5000
        (sample_request ''https://example.com'' JUndefined (Some ''promo'')) sample_table
      = (Error_json 409 ''Custom slug already in use'', sample_table)"
proof -
  have h: "sample_isWebUri (body_longUrl (sample_request ''https://example.com'' JUndefined (Some ''promo'')))"
    "body_customSlug (sample_request ''https://example.com'' JUndefined (Some ''promo'')) = Some ''promo''"
    "isValidCustomSlug ''promo''"
    "Map_get sample_table ''promo'' = Some entry_old"
    by (simp_all add: sample_facts sample_request_fields)
  show ?thesis
    using h sample_facts(9-11,13)
      C2_slug_taken [of sample_isWebUri
        "sample_request ''https://example.com'' JUndefined (Some ''promo'')" "''promo''"
        sample_table entry_old sample_parseInt "''deadbeef''" sample_toDataURL 5000]
    by simp
qed

text \<open>
  Claim C3.  A request with a valid \<open>longUrl\<close> and a well-formed custom slug that is not a
  key of the table, on a table with a live entry for the same \<open>longUrl\<close>, is answered with
  the existing entry under its existing key; the key is not the requested slug, no entry
  is stored under the slug and the table is unchanged.
\<close>

theorem C3_dedup_over_slug:
  assumes "isWebUri (body_longUrl req)"
    and "body_customSlug req = Some slug"
    and "isValidCustomSlug slug"
    and "\<not> Map_has db slug"
    and "(k, e) \<in> set db" and "longUrl e = body_longUrl req" and "\<not> isExpired now e"
  shows "\<exists>k' e'. shorten isWebUri parseInt gen qr now req db
             = (Json k' (body_longUrl req) (getStats now e'), db)
           \<and> (k', e') \<in> set db \<and> longUrl e' = body_longUrl req \<and> \<not> isExpired now e'
           \<and> k' \<noteq> slug \<and> \<not> Map_has (snd (shorten isWebUri parseInt gen qr now req db)) slug
           \<and> ((\<forall>p \<in> set db. liveMatch now (body_longUrl req) p \<longrightarrow> p = (k, e))
                \<longrightarrow> k' = k \<and> e' = e)
           \<and> (ids_ok db \<longrightarrow> shortId e' = k')"
proof -
  obtain k' e' where r: "shorten isWebUri parseInt gen qr now req db
             = (Json k' (body_longUrl req) (getStats now e'), db)"
     "(k', e') \<in> set db" "longUrl e' = body_longUrl req" "\<not> isExpired now e'"
     "(\<forall>p \<in> set db. liveMatch now (body_longUrl req) p \<longrightarrow> p = (k, e)) \<longrightarrow> k' = k \<and> e' = e"
     "ids_ok db \<longrightarrow> shortId e' = k'"
    using shorten_dedup_hit [of isWebUri req db k e now parseInt gen qr] assms by auto
  have neq: "k' \<noteq> slug"
    using r(2) assms(4) by (force simp: Map_has_iff)
  show ?thesis
    apply (rule exI [of _ k'], rule exI [of _ e'])
    apply (simp only: r(1) snd_conv)
    using neq r(2-6) assms(4) apply blast
    done
qed

theorem C3_dedup_over_slug_witness:
  "sample_isWebUri (body_longUrl (sample_request ''https://example.com'' JUndefined (Some ''home'')))
   \<and> body_customSlug (sample_request ''https://example.com'' JUndefined (Some ''home'')) = Some ''home''
   \<and> isValidCustomSlug ''home''
   \<and> \<not> Map_has sample_table ''home''
   \<and> (''0a1b2c3d'', entry_live) \<in> set sample_table
   \<and> longUrl entry_live = body_longUrl (sample_request ''https://example.com'' JUndefined (Some ''home''))
   \<and> \<not> isExpired 5000 entry_live
   \<and> ids_ok sample_table \<and> shortId entry_live = ''0a1b2c3d''
   \<and> shorten sample_isWebUri sample_parseInt ''deadbeef'' sample_toDataURL 5000
        (sample_request ''https://example.com'' JUndefined (Some ''home'')) sample_table
      = (Json ''0a1b2c3d'' ''https://example.com'' (getStats 5000 entry_live), sample_table)"
proof -
  let ?req = "sample_request ''https://example.com'' JUndefined (Some ''home'')"
  have h: "sample_isWebUri (body_longUrl ?req)"
    "body_customSlug ?req = Some ''home''"
    "isValidCustomSlug ''home''"
    "\<not> Map_has sample_table ''home''"
    "(''0a1b2c3d'', entry_live) \<in> set sample_table"
    "longUrl entry_live = body_longUrl ?req"
    "\<not> isExpired 5000 entry_live"
    by (simp_all add: sample_facts sample_request_fields Map_has_def)
  have u: "\<forall>p \<in> set sample_table. liveMatch 5000 (body_longUrl ?req) p
             \<longrightarrow> p = (''0a1b2c3d'', entry_live)"
    by (simp add: sample_table_def liveMatch_def sample_facts sample_request_fields)
  have "shorten sample_isWebUri sample_parseInt ''deadbeef'' sample_toDataURL 5000 ?req sample_table
      = (Json ''0a1b2c3d'' ''https://example.com'' (getStats 5000 entry_live), sample_table)"
    using u h C3_dedup_over_slug [of sample_isWebUri ?req "''home''" sample_table
        "''0a1b2c3d''" entry_live 5000 sample_parseInt "''deadbeef''" sample_toDataURL]
    by (auto simp: sample_request_fields)
  moreover have "ids_ok sample_table \<and> shortId entry_live = ''0a1b2c3d''"
    by (simp add: ids_ok_def sample_table_def entry_live_def entry_old_def new_UrlEntry_def
        slug_given_def)
  ultimately show ?thesis using h by blast
qed

section \<open>Expired entries: the redirect and the sweep\<close>

lemma cleanup_loop_filter:
  "cleanup_loop now xs db hc =
     (filter (\<lambda>p. fst p \<notin> fst ` {q \<in> set xs. isExpired now (snd q)}) db,
      hc \<or> (\<exists>q \<in> set xs. isExpired now (snd q)))"
proof (induction xs arbitrary: db hc)
  case Nil
  show ?case by simp
next
  case (Cons x xs)
  obtain k e where x: "x = (k, e)" by (cases x)
  show ?case
  proof (cases "isExpired now e")
    case True
    have "{q \<in> set (x # xs). isExpired now (snd q)} = insert x {q \<in> set xs. isExpired now (snd q)}"
      using True x by auto
    then show ?thesis
      using True x Cons.IH [of "Map_delete db k" True]
      by (auto simp: Map_delete_filter intro!: filter_cong)
  next
    case False
    have "{q \<in> set (x # xs). isExpired now (snd q)} = {q \<in> set xs. isExpired now (snd q)}"
      using False x by auto
    then show ?thesis
      using False x Cons.IH [of db hc] by simp
  qed
qed

lemma cleanup_filter:
  assumes "Map_ok db"
  shows "cleanupExpiredUrls now db =
     (filter (\<lambda>p. \<not> isExpired now (snd p)) db, \<exists>q \<in> set db. isExpired now (snd q))"
proof -
  have "fst p \<notin> fst ` {q \<in> set db. isExpired now (snd q)} \<longleftrightarrow> \<not> isExpired now (snd p)"
    if "p \<in> set db" for p
  proof
    assume "fst p \<notin> fst ` {q \<in> set db. isExpired now (snd q)}"
    then show "\<not> isExpired now (snd p)" using that by auto
  next
    assume live: "\<not> isExpired now (snd p)"
    show "fst p \<notin> fst ` {q \<in> set db. isExpired now (snd q)}"
    proof
      assume "fst p \<in> fst ` {q \<in> set db. isExpired now (snd q)}"
      then obtain q where q: "q \<in> set db" "isExpired now (snd q)" "fst q = fst p" by auto
      have "inj_on fst (set db)" using assms by (simp add: Map_ok_def distinct_map)
      then have "q = p" using q that by (auto dest: inj_onD)
      then show False using q live by simp
    qed
  qed
  then have "filter (\<lambda>p. fst p \<notin> fst ` {q \<in> set db. isExpired now (snd q)}) db
      = filter (\<lambda>p. \<not> isExpired now (snd p)) db"
    by (intro filter_cong) auto
  then show ?thesis
    by (simp add: cleanupExpiredUrls_def cleanup_loop_filter)
qed

lemma Map_get_filter:
  "Map_ok m \<Longrightarrow>
   Map_get (filter P m) k = (case Map_get m k of None \<Rightarrow> None
                              | Some v \<Rightarrow> if P (k, v) then Some v else None)"
proof (induction m)
  case Nil
  show ?case by (simp add: Map_get_def)
next
  case (Cons p m)
  obtain k' v' where p: "p = (k', v')" by (cases p)
  have ok: "Map_ok m" and fresh: "k' \<notin> fst ` set m"
    using Cons.prems p by (simp_all add: Map_ok_def)
  have none: "Map_get m k' = None"
    using fresh by (simp add: Map_get_def map_of_eq_None_iff)
  show ?case
    using Cons.IH [OF ok] p none
    by (auto simp: Map_get_def split: option.splits)
qed

text \<open>
  Claim C5.  A redirect request for a short id whose entry is in the table and expired
  answers 404 \<open>URL has expired\<close> and deletes the key: afterwards the key is free, so a
  statistics request for it answers 404 \<open>URL not found\<close>.  No statistics are recorded:
  every other key holds what it held, and every pair of the new table is a pair of the
  old one.
\<close>

theorem C5_redirect_expired:
  assumes "param_shortId req = k" and "Map_get db k = Some e" and "isExpired now e"
  shows "redirect now req db = (Send 404 ''URL has expired'', Map_delete db k)
       \<and> Map_get (snd (redirect now req db)) k = None
       \<and> stats now' k (snd (redirect now req db)) = Error_json 404 ''URL not found''
       \<and> (\<forall>k'. k' \<noteq> k \<longrightarrow> Map_get (snd (redirect now req db)) k' = Map_get db k')
       \<and> set (snd (redirect now req db)) \<subseteq> set db"
proof -
  have r: "redirect now req db = (Send 404 ''URL has expired'', Map_delete db k)"
    using assms by (simp add: redirect_def Let_def)
  have gone: "Map_get (Map_delete db k) k = None"
    by (simp add: Map_get_delete)
  have "stats now' k (Map_delete db k) = Error_json 404 ''URL not found''"
    using gone by (simp add: stats_def)
  moreover have "set (Map_delete db k) \<subseteq> set db"
    by (auto simp: Map_delete_filter)
  ultimately show ?thesis
    using r gone by (simp add: Map_get_delete)
qed

theorem C5_redirect_expired_witness:
  "param_shortId \<lparr> param_shortId = ''promo'', header_Referrer = None, header_UserAgent = None \<rparr>
     = ''promo''
   \<and> Map_get sample_table ''promo'' = Some entry_old \<and> isExpired 5000 entry_old
   \<and> redirect 5000 \<lparr> param_shortId = ''promo'', header_Referrer = None, header_UserAgent = None \<rparr>
        sample_table
      = (Send 404 ''URL has expired'', [(''0a1b2c3d'', entry_live)])
   \<and> stats 5001 ''promo''
        (snd (redirect 5000
           \<lparr> param_shortId = ''promo'', header_Referrer = None, header_UserAgent = None \<rparr>
           sample_table))
      = Error_json 404 ''URL not found''"
proof -
  let ?req = "\<lparr> param_shortId = ''promo'', header_Referrer = None, header_UserAgent = None \<rparr>"
  have h: "param_shortId ?req = ''promo''" "Map_get sample_table ''promo'' = Some entry_old"
    "isExpired 5000 entry_old"
    by (simp_all add: sample_facts)
  have d: "Map_delete sample_table ''promo'' = [(''0a1b2c3d'', entry_live)]"
    by (simp add: sample_table_def)
  note t = C5_redirect_expired [of ?req "''promo''" sample_table entry_old 5000 5001, OF h]
  have r: "redirect 5000 ?req sample_table
      = (Send 404 ''URL has expired'', [(''0a1b2c3d'', entry_live)])"
    using t d by simp
  have s: "stats 5001 ''promo'' (snd (redirect 5000 ?req sample_table))
      = Error_json 404 ''URL not found''"
    using t by blast
  show ?thesis by (intro conjI) (fact h r s)+
qed

text \<open>
  Claim C6.  The sweep keeps exactly the entries that are not expired at \<open>now\<close>, in their
  order and as they are (every field), and removes every expired one; \<open>hasChanges\<close> tells
  whether an entry was removed.  In terms of keys: a key with an expired entry is free
  afterwards, a key with a live entry holds the same entry, a free key stays free.
\<close>

theorem C6_sweep:
  assumes "Map_ok db"
  shows "fst (cleanupExpiredUrls now db) = filter (\<lambda>p. \<not> isExpired now (snd p)) db
       \<and> snd (cleanupExpiredUrls now db) = (\<exists>p \<in> set db. isExpired now (snd p))
       \<and> (\<forall>k e. Map_get db k = Some e \<longrightarrow>
             Map_get (fst (cleanupExpiredUrls now db)) k
               = (if isExpired now e then None else Some e))
       \<and> (\<forall>k. Map_get db k = None \<longrightarrow> Map_get (fst (cleanupExpiredUrls now db)) k = None)
       \<and> Map_ok (fst (cleanupExpiredUrls now db))"
proof -
  have c: "cleanupExpiredUrls now db =
     (filter (\<lambda>p. \<not> isExpired now (snd p)) db, \<exists>q \<in> set db. isExpired now (snd q))"
    using cleanup_filter [OF assms] .
  have "Map_ok (filter (\<lambda>p. \<not> isExpired now (snd p)) db)"
    using assms by (simp add: Map_ok_def distinct_map_filter)
  then show ?thesis
    using c by (simp add: Map_get_filter [OF assms])
qed

theorem C6_sweep_witness:
  "Map_ok sample_table
   \<and> cleanupExpiredUrls 5000 sample_table = ([(''0a1b2c3d'', entry_live)], True)
   \<and> Map_get sample_table ''promo'' = Some entry_old \<and> isExpired 5000 entry_old
   \<and> Map_get (fst (cleanupExpiredUrls 5000 sample_table)) ''promo'' = None
   \<and> Map_get sample_table ''0a1b2c3d'' = Some entry_live \<and> \<not> isExpired 5000 entry_live
   \<and> Map_get (fst (cleanupExpiredUrls 5000 sample_table)) ''0a1b2c3d'' = Some entry_live
   \<and> Map_get sample_table ''home'' = None
   \<and> Map_get (fst (cleanupExpiredUrls 5000 sample_table)) ''home'' = None"
proof -
  have h: "Map_ok sample_table" by (simp add: sample_facts)
  have f: "filter (\<lambda>p. \<not> isExpired 5000 (snd p)) sample_table = [(''0a1b2c3d'', entry_live)]"
    by (simp add: sample_table_def sample_facts)
  have e: "\<exists>p \<in> set sample_table. isExpired 5000 (snd p)"
    by (simp add: sample_table_def sample_facts)
  note t = C6_sweep [OF h, of 5000]
  have c: "cleanupExpiredUrls 5000 sample_table = ([(''0a1b2c3d'', entry_live)], True)"
    using t f e by (simp add: prod_eq_iff)
  note held = t [THEN conjunct2, THEN conjunct2, THEN conjunct1, rule_format]
  note free = t [THEN conjunct2, THEN conjunct2, THEN conjunct2, THEN conjunct1, rule_format]
  have g1: "Map_get (fst (cleanupExpiredUrls 5000 sample_table)) ''promo'' = None"
    using held [OF sample_facts(6)] sample_facts(10) by simp
  have g2: "Map_get (fst (cleanupExpiredUrls 5000 sample_table)) ''0a1b2c3d'' = Some entry_live"
    using held [OF sample_facts(7)] sample_facts(11) by simp
  have g3: "Map_get (fst (cleanupExpiredUrls 5000 sample_table)) ''home'' = None"
    using free [OF sample_facts(8)] .
  show ?thesis
    by (intro conjI) (fact h c g1 g2 g3 sample_facts)+
qed

section \<open>Access statistics\<close>

lemma startsWith_iff: "startsWith s t \<longleftrightarrow> (\<exists>ss. s = t @ ss)"
  by (induction s t rule: startsWith.induct) auto

lemma str_includes_iff: "str_includes s t \<longleftrightarrow> (\<exists>ps ss. s = ps @ t @ ss)"
proof (induction s)
  case Nil
  show ?case by simp
next
  case (Cons d s)
  have "(\<exists>ps ss. d # s = ps @ t @ ss) \<longleftrightarrow> (\<exists>ss. d # s = t @ ss) \<or> (\<exists>ps ss. s = ps @ t @ ss)"
  proof
    assume "\<exists>ps ss. d # s = ps @ t @ ss"
    then obtain ps ss where eq: "d # s = ps @ t @ ss" by blast
    show "(\<exists>ss. d # s = t @ ss) \<or> (\<exists>ps ss. s = ps @ t @ ss)"
    proof (cases ps)
      case Nil
      then show ?thesis using eq by auto
    next
      case (Cons p ps')
      then have "s = ps' @ t @ ss" using eq by simp
      then show ?thesis by blast
    qed
  next
    assume "(\<exists>ss. d # s = t @ ss) \<or> (\<exists>ps ss. s = ps @ t @ ss)"
    then show "\<exists>ps ss. d # s = ps @ t @ ss"
    proof
      assume "\<exists>ss. d # s = t @ ss"
      then obtain ss where "d # s = [] @ t @ ss" by auto
      then show ?thesis by blast
    next
      assume "\<exists>ps ss. s = ps @ t @ ss"
      then obtain ps ss where "d # s = (d # ps) @ t @ ss" by auto
      then show ?thesis by blast
    qed
  qed
  then show ?case using Cons.IH by (simp add: startsWith_iff)
qed

lemma Map_get_bump:
  "Map_get (bump m l) l' =
     (if l' = l then Some ((case Map_get m l of None \<Rightarrow> 0 | Some c \<Rightarrow> c) + 1) else Map_get m l')"
  by (simp add: bump_def Map_get_set)

lemma redirect_live:
  assumes "param_shortId req = k" and "Map_get db k = Some e" and "\<not> isExpired now e"
  shows "redirect now req db =
           (Redirect (longUrl e),
            Map_set db k (updateStats now (header_or (header_Referrer req) ''Direct'')
                            (header_or (header_UserAgent req) ''Unknown'') e))"
  using assms by (simp add: redirect_def Let_def)

text \<open>
  Claim C8.  The browser label of a user-agent string is the first of \<open>Firefox\<close>,
  \<open>Chrome\<close>, \<open>Safari\<close>, \<open>Edge\<close> that occurs in it as a substring, compared character by
  character (so case matters), and \<open>Other\<close> when none occurs.  A redirect to a live entry
  without a user-agent header classifies the string \<open>Unknown\<close>, which gives \<open>Other\<close>, and
  increments that bucket; without a referrer header it increments the referrer counter
  \<open>Direct\<close>; with the headers it increments the bucket of the user agent and the counter
  of the referrer.  Incrementing a label adds one to its counter (from zero when it is
  new) and leaves the other labels alone.
\<close>

theorem C8_browser_and_referrer_labels:
  "getBrowserFromUserAgent userAgent =
     (case find (\<lambda>label. \<exists>ps ss. userAgent = ps @ label @ ss)
             [''Firefox'', ''Chrome'', ''Safari'', ''Edge''] of
        Some label \<Rightarrow> label | None \<Rightarrow> ''Other'')
   \<and> getBrowserFromUserAgent ''Unknown'' = ''Other''
   \<and> getBrowserFromUserAgent ''firefox chrome safari edge'' = ''Other''
   \<and> (param_shortId req = k \<and> Map_get db k = Some e \<and> \<not> isExpired now e \<longrightarrow>
        (\<exists>e'. redirect now req db = (Redirect (longUrl e), Map_set db k e')
           \<and> (header_UserAgent req = None \<longrightarrow> browserStats e' = bump (browserStats e) ''Other'')
           \<and> (\<forall>ua. header_UserAgent req = Some ua \<and> ua \<noteq> [] \<longrightarrow>
                  browserStats e' = bump (browserStats e) (getBrowserFromUserAgent ua))
           \<and> (header_Referrer req = None \<longrightarrow> referrers e' = bump (referrers e) ''Direct'')
           \<and> (\<forall>r. header_Referrer req = Some r \<and> r \<noteq> [] \<longrightarrow>
                  referrers e' = bump (referrers e) r)))
   \<and> Map_get (bump m label) label = Some ((case Map_get m label of None \<Rightarrow> 0 | Some c \<Rightarrow> c) + 1)
   \<and> (\<forall>other. other \<noteq> label \<longrightarrow> Map_get (bump m label) other = Map_get m other)"
proof (intro conjI impI)
  show "getBrowserFromUserAgent userAgent =
     (case find (\<lambda>label. \<exists>ps ss. userAgent = ps @ label @ ss)
             [''Firefox'', ''Chrome'', ''Safari'', ''Edge''] of
        Some label \<Rightarrow> label | None \<Rightarrow> ''Other'')"
  proof -
    have "(\<lambda>label. \<exists>ps ss. userAgent = ps @ label @ ss) = str_includes userAgent"
      by (rule ext) (simp only: str_includes_iff)
    then show ?thesis
      by (simp add: getBrowserFromUserAgent_def)
  qed
  show unknown: "getBrowserFromUserAgent ''Unknown'' = ''Other''"
    by (simp add: getBrowserFromUserAgent_def)
  show "getBrowserFromUserAgent ''firefox chrome safari edge'' = ''Other''"
    by (simp add: getBrowserFromUserAgent_def)
  show "Map_get (bump m label) label = Some ((case Map_get m label of None \<Rightarrow> 0 | Some c \<Rightarrow> c) + 1)"
    by (simp add: Map_get_bump)
  show "\<forall>other. other \<noteq> label \<longrightarrow> Map_get (bump m label) other = Map_get m other"
    by (simp add: Map_get_bump)
  assume h: "param_shortId req = k \<and> Map_get db k = Some e \<and> \<not> isExpired now e"
  let ?e' = "updateStats now (header_or (header_Referrer req) ''Direct'')
               (header_or (header_UserAgent req) ''Unknown'') e"
  have r: "redirect now req db = (Redirect (longUrl e), Map_set db k ?e')"
    using h by (intro redirect_live) simp_all
  have a: "header_UserAgent req = None \<longrightarrow> browserStats ?e' = bump (browserStats e) ''Other''"
    using unknown by (simp add: updateStats_def header_or_def)
  have b: "\<forall>ua. header_UserAgent req = Some ua \<and> ua \<noteq> [] \<longrightarrow>
                  browserStats ?e' = bump (browserStats e) (getBrowserFromUserAgent ua)"
    by (simp add: updateStats_def header_or_def)
  have c: "header_Referrer req = None \<longrightarrow> referrers ?e' = bump (referrers e) ''Direct''"
    by (simp add: updateStats_def header_or_def)
  have d: "\<forall>r. header_Referrer req = Some r \<and> r \<noteq> [] \<longrightarrow>
                  referrers ?e' = bump (referrers e) r"
    by (simp add: updateStats_def header_or_def)
  show "\<exists>e'. redirect now req db = (Redirect (longUrl e), Map_set db k e')
           \<and> (header_UserAgent req = None \<longrightarrow> browserStats e' = bump (browserStats e) ''Other'')
           \<and> (\<forall>ua. header_UserAgent req = Some ua \<and> ua \<noteq> [] \<longrightarrow>
                  browserStats e' = bump (browserStats e) (getBrowserFromUserAgent ua))
           \<and> (header_Referrer req = None \<longrightarrow> referrers e' = bump (referrers e) ''Direct'')
           \<and> (\<forall>r. header_Referrer req = Some r \<and> r \<noteq> [] \<longrightarrow>
                  referrers e' = bump (referrers e) r)"
    by (rule exI [of _ ?e'], intro conjI) (fact r a b c d)+
qed

theorem C8_browser_and_referrer_labels_witness:
  "param_shortId \<lparr> param_shortId = ''0a1b2c3d'', header_Referrer = None, header_UserAgent = None \<rparr>
     = ''0a1b2c3d''
   \<and> Map_get sample_table ''0a1b2c3d'' = Some entry_live \<and> \<not> isExpired 5000 entry_live
   \<and> (\<exists>e'. redirect 5000
            \<lparr> param_shortId = ''0a1b2c3d'', header_Referrer = None, header_UserAgent = None \<rparr>
            sample_table
          = (Redirect ''https://example.com'', Map_set sample_table ''0a1b2c3d'' e')
        \<and> browserStats e' = [(''Other'', 1)] \<and> referrers e' = [(''Direct'', 1)])
   \<and> (\<exists>e'. redirect 5000
            \<lparr> param_shortId = ''0a1b2c3d'', header_Referrer = Some ''https://news.example/'',
              header_UserAgent = Some ''Mozilla/5.0 Chrome/120.0 Safari/537.36'' \<rparr>
            sample_table
          = (Redirect ''https://example.com'', Map_set sample_table ''0a1b2c3d'' e')
        \<and> browserStats e' = [(''Chrome'', 1)] \<and> referrers e' = [(''https://news.example/'', 1)])
   \<and> ''Other'' \<noteq> ''Chrome''
   \<and> Map_get (bump [(''Other'', 1)] ''Chrome'') ''Other'' = Some 1
   \<and> Map_get (bump [(''Other'', 1)] ''Chrome'') ''Chrome'' = Some 1"
proof -
  let ?reqA = "\<lparr> param_shortId = ''0a1b2c3d'', header_Referrer = None, header_UserAgent = None \<rparr>"
  let ?reqB = "\<lparr> param_shortId = ''0a1b2c3d'', header_Referrer = Some ''https://news.example/'',
              header_UserAgent = Some ''Mozilla/5.0 Chrome/120.0 Safari/537.36'' \<rparr>"
  have h: "Map_get sample_table ''0a1b2c3d'' = Some entry_live" "\<not> isExpired 5000 entry_live"
    by (simp_all add: sample_facts)
  have fresh: "browserStats entry_live = []" "referrers entry_live = []"
      "longUrl entry_live = ''https://example.com''"
    by (simp_all add: entry_live_def new_UrlEntry_def)
  have chrome: "getBrowserFromUserAgent ''Mozilla/5.0 Chrome/120.0 Safari/537.36'' = ''Chrome''"
    by (simp add: getBrowserFromUserAgent_def)
  note tA = C8_browser_and_referrer_labels [of "''Unknown''" ?reqA "''0a1b2c3d''" sample_table
      entry_live 5000 "[(''Other'', 1)]" "''Chrome''"]
  note tB = C8_browser_and_referrer_labels [of "''Unknown''" ?reqB "''0a1b2c3d''" sample_table
      entry_live 5000 "[(''Other'', 1)]" "''Chrome''"]
  have a: "\<exists>e'. redirect 5000 ?reqA sample_table
          = (Redirect ''https://example.com'', Map_set sample_table ''0a1b2c3d'' e')
        \<and> browserStats e' = [(''Other'', 1)] \<and> referrers e' = [(''Direct'', 1)]"
    using tA h fresh by (auto simp: bump_def Map_get_def)
  have b: "\<exists>e'. redirect 5000 ?reqB sample_table
          = (Redirect ''https://example.com'', Map_set sample_table ''0a1b2c3d'' e')
        \<and> browserStats e' = [(''Chrome'', 1)] \<and> referrers e' = [(''https://news.example/'', 1)]"
    using tB h fresh chrome by (auto simp: bump_def Map_get_def)
  have c: "Map_get (bump [(''Other'', 1)] ''Chrome'') ''Other'' = Some 1"
    using tA by (simp add: Map_get_def)
  have d: "Map_get (bump [(''Other'', 1)] ''Chrome'') ''Chrome'' = Some 1"
    using tA by (simp add: Map_get_def)
  show ?thesis
    using h a b c d by simp
qed

section \<open>Falsy ttl values\<close>

lemma isExpired_needs_ttl:
  "isExpired now e \<Longrightarrow> (\<exists>t. ttl e = Some (Num t) \<and> t \<noteq> 0) \<or> ttl e = Some NegInfinity"
  by (auto simp: isExpired_def split: option.splits js_number.splits if_splits)

lemma falsy_ttl_never_expired:
  "ttl e = None \<or> ttl e = Some NaN \<or> ttl e = Some (Num 0) \<Longrightarrow> \<not> isExpired now e"
  using isExpired_needs_ttl [of now e] by auto

text \<open>
  Claim C10.  An entry can be expired only when its stored ttl is a number other than
  zero (an integer other than 0, or \<open>-Infinity\<close>): with \<open>null\<close>, \<open>NaN\<close> or \<open>0\<close> it is never
  expired.  A request that creates an entry and whose \<open>ttl\<close> field is the number 0, a
  string that \<open>parseInt\<close> turns into \<open>NaN\<close>, any other falsy value, or any value that
  \<open>parseInt\<close> turns into \<open>NaN\<close> or 0, stores such a ttl, so the entry it creates is not
  expired at any time.  This holds whatever function \<open>parseInt\<close> is.
\<close>

theorem C10_falsy_ttl_never_expires:
  "(isExpired now e \<longrightarrow> (\<exists>t. ttl e = Some (Num t) \<and> t \<noteq> 0) \<or> ttl e = Some NegInfinity)
   \<and> (ttl e = None \<or> ttl e = Some NaN \<or> ttl e = Some (Num 0) \<longrightarrow> \<not> isExpired now e)
   \<and> (isWebUri (body_longUrl req)
       \<and> (slug_given (body_customSlug req) \<longrightarrow>
             isValidCustomSlug (the (body_customSlug req))
             \<and> \<not> Map_has db (the (body_customSlug req)))
       \<and> find (liveMatch now (body_longUrl req)) db = None
       \<and> (body_ttl req = JNumber 0
            \<or> (\<exists>s. body_ttl req = JString s \<and> parseInt (JString s) = NaN)
            \<or> \<not> truthy (body_ttl req)
            \<or> parseInt (body_ttl req) = NaN
            \<or> parseInt (body_ttl req) = Num 0)
      \<longrightarrow> (\<exists>sid ent. shorten isWebUri parseInt gen qr now req db
                  = (Json sid (body_longUrl req) (getStats now ent), Map_set db sid ent)
              \<and> Map_get (Map_set db sid ent) sid = Some ent
              \<and> (ttl ent = None \<or> ttl ent = Some NaN \<or> ttl ent = Some (Num 0))
              \<and> (\<forall>now'. \<not> isExpired now' ent)))"
proof (intro conjI impI)
  assume "isExpired now e"
  then show "(\<exists>t. ttl e = Some (Num t) \<and> t \<noteq> 0) \<or> ttl e = Some NegInfinity"
    by (rule isExpired_needs_ttl)
next
  assume "ttl e = None \<or> ttl e = Some NaN \<or> ttl e = Some (Num 0)"
  then show "\<not> isExpired now e" by (rule falsy_ttl_never_expired)
next
  assume h: "isWebUri (body_longUrl req)
       \<and> (slug_given (body_customSlug req) \<longrightarrow>
             isValidCustomSlug (the (body_customSlug req))
             \<and> \<not> Map_has db (the (body_customSlug req)))
       \<and> find (liveMatch now (body_longUrl req)) db = None
       \<and> (body_ttl req = JNumber 0
            \<or> (\<exists>s. body_ttl req = JString s \<and> parseInt (JString s) = NaN)
            \<or> \<not> truthy (body_ttl req)
            \<or> parseInt (body_ttl req) = NaN
            \<or> parseInt (body_ttl req) = Num 0)"
  define sid where "sid = (if slug_given (body_customSlug req) then the (body_customSlug req) else gen)"
  define t where "t = (if truthy (body_ttl req) then Some (parseInt (body_ttl req)) else None)"
  define ent where "ent = (new_UrlEntry (body_longUrl req) sid now t (body_customSlug req))
               \<lparr> qrCode := qr (req_protocol req @ ''://'' @ req_host req @ ''/'' @ sid) \<rparr>"
  have r: "shorten isWebUri parseInt gen qr now req db
             = (Json sid (body_longUrl req) (getStats now ent), Map_set db sid ent)"
    using h by (intro shorten_miss) (simp_all add: sid_def ent_def t_def)
  have g: "Map_get (Map_set db sid ent) sid = Some ent"
    by (simp add: Map_get_set)
  have "t = None \<or> t = Some NaN \<or> t = Some (Num 0)"
    using h by (auto simp: t_def)
  then have f: "ttl ent = None \<or> ttl ent = Some NaN \<or> ttl ent = Some (Num 0)"
    by (simp add: ent_def new_entry_fields)
  have n: "\<forall>now'. \<not> isExpired now' ent"
  proof
    fix now'
    show "\<not> isExpired now' ent" using f by (rule falsy_ttl_never_expired)
  qed
  show "\<exists>sid ent. shorten isWebUri parseInt gen qr now req db
                  = (Json sid (body_longUrl req) (getStats now ent), Map_set db sid ent)
              \<and> Map_get (Map_set db sid ent) sid = Some ent
              \<and> (ttl ent = None \<or> ttl ent = Some NaN \<or> ttl ent = Some (Num 0))
              \<and> (\<forall>now'. \<not> isExpired now' ent)"
    by (rule exI [of _ sid], rule exI [of _ ent], intro conjI) (fact r g f n)+
qed

theorem C10_falsy_ttl_never_expires_witness:
  "isExpired 5000 entry_old \<and> ttl entry_old = Some (Num 1000) \<and> (1000::int) \<noteq> 0
   \<and> ttl entry_live = None \<and> \<not> isExpired 5000 entry_live
   \<and> sample_isWebUri ''https://example.net''
   \<and> \<not> slug_given None
   \<and> find (liveMatch 5000 ''https://example.net'') sample_table = None
   \<and> sample_parseInt (JString ''abc'') = NaN
   \<and> (\<exists>sid ent. shorten sample_isWebUri sample_parseInt ''deadbeef'' sample_toDataURL 5000
                    (sample_request ''https://example.net'' (JString ''abc'') None) sample_table
                  = (Json sid ''https://example.net'' (getStats 5000 ent),
                     Map_set sample_table sid ent)
              \<and> Map_get (Map_set sample_table sid ent) sid = Some ent
              \<and> (ttl ent = None \<or> ttl ent = Some NaN \<or> ttl ent = Some (Num 0))
              \<and> (\<forall>now'. \<not> isExpired now' ent))
   \<and> (\<exists>sid ent. shorten sample_isWebUri sample_parseInt ''deadbeef'' sample_toDataURL 5000
                    (sample_request ''https://example.net'' (JNumber 0) None) sample_table
                  = (Json sid ''https://example.net'' (getStats 5000 ent),
                     Map_set sample_table sid ent)
              \<and> Map_get (Map_set sample_table sid ent) sid = Some ent
              \<and> (ttl ent = None \<or> ttl ent = Some NaN \<or> ttl ent = Some (Num 0))
              \<and> (\<forall>now'. \<not> isExpired now' ent))
   \<and> sample_parseInt (JString ''0'') = Num 0
   \<and> (\<exists>sid ent. shorten sample_isWebUri sample_parseInt ''deadbeef'' sample_toDataURL 5000
                    (sample_request ''https://example.net'' (JString ''0'') None) sample_table
                  = (Json sid ''https://example.net'' (getStats 5000 ent),
                     Map_set sample_table sid ent)
              \<and> Map_get (Map_set sample_table sid ent) sid = Some ent
              \<and> (ttl ent = None \<or> ttl ent = Some NaN \<or> ttl ent = Some (Num 0))
              \<and> (\<forall>now'. \<not> isExpired now' ent))"
proof -
  have old: "isExpired 5000 entry_old"
    by (simp add: sample_facts)
  have live: "ttl entry_old = Some (Num 1000)" "ttl entry_live = None"
    by (simp_all add: entry_old_def entry_live_def new_UrlEntry_def)
  have nz: "(1000::int) \<noteq> 0" by simp
  have live': "\<not> isExpired 5000 entry_live"
    using live C10_falsy_ttl_never_expires [of 5000 entry_live] by blast
  have v: "sample_isWebUri ''https://example.net''" "\<not> slug_given None"
    "find (liveMatch 5000 ''https://example.net'') sample_table = None"
    by (simp_all add: sample_facts slug_given_def sample_table_def liveMatch_def)
  have p: "sample_parseInt (JString ''abc'') = NaN" "sample_parseInt (JString ''0'') = Num 0"
    by (simp_all add: sample_parseInt_def)
  have a: "\<exists>sid ent. shorten sample_isWebUri sample_parseInt ''deadbeef'' sample_toDataURL 5000
                    (sample_request ''https://example.net'' (JString ''abc'') None) sample_table
                  = (Json sid ''https://example.net'' (getStats 5000 ent),
                     Map_set sample_table sid ent)
              \<and> Map_get (Map_set sample_table sid ent) sid = Some ent
              \<and> (ttl ent = None \<or> ttl ent = Some NaN \<or> ttl ent = Some (Num 0))
              \<and> (\<forall>now'. \<not> isExpired now' ent)"
    using v p C10_falsy_ttl_never_expires [where now = 5000 and e = entry_old
        and isWebUri = sample_isWebUri and parseInt = sample_parseInt
        and req = "sample_request ''https://example.net'' (JString ''abc'') None"
        and db = sample_table and gen = "''deadbeef''" and qr = sample_toDataURL]
    by (simp add: sample_request_fields)
  have b: "\<exists>sid ent. shorten sample_isWebUri sample_parseInt ''deadbeef'' sample_toDataURL 5000
                    (sample_request ''https://example.net'' (JNumber 0) None) sample_table
                  = (Json sid ''https://example.net'' (getStats 5000 ent),
                     Map_set sample_table sid ent)
              \<and> Map_get (Map_set sample_table sid ent) sid = Some ent
              \<and> (ttl ent = None \<or> ttl ent = Some NaN \<or> ttl ent = Some (Num 0))
              \<and> (\<forall>now'. \<not> isExpired now' ent)"
    using v C10_falsy_ttl_never_expires [where now = 5000 and e = entry_old
        and isWebUri = sample_isWebUri and parseInt = sample_parseInt
        and req = "sample_request ''https://example.net'' (JNumber 0) None"
        and db = sample_table and gen = "''deadbeef''" and qr = sample_toDataURL]
    by (simp add: sample_request_fields)
  have c: "\<exists>sid ent. shorten sample_isWebUri sample_parseInt ''deadbeef'' sample_toDataURL 5000
                    (sample_request ''https://example.net'' (JString ''0'') None) sample_table
                  = (Json sid ''https://example.net'' (getStats 5000 ent),
                     Map_set sample_table sid ent)
              \<and> Map_get (Map_set sample_table sid ent) sid = Some ent
              \<and> (ttl ent = None \<or> ttl ent = Some NaN \<or> ttl ent = Some (Num 0))
              \<and> (\<forall>now'. \<not> isExpired now' ent)"
    using v p C10_falsy_ttl_never_expires [where now = 5000 and e = entry_old
        and isWebUri = sample_isWebUri and parseInt = sample_parseInt
        and req = "sample_request ''https://example.net'' (JString ''0'') None"
        and db = sample_table and gen = "''deadbeef''" and qr = sample_toDataURL]
    by (simp add: sample_request_fields)
  show ?thesis
    by (intro conjI) (fact old live nz live' v p a b c)+
qed

section \<open>Serialization\<close>

lemma Map_set_fresh: "k \<notin> fst ` set m \<Longrightarrow> Map_set m k v = m @ [(k, v)]"
  by (induction m) auto

lemma foldl_Map_set:
  "distinct (map fst xs) \<Longrightarrow> fst ` set xs \<inter> fst ` set acc = {} \<Longrightarrow>
   foldl (\<lambda>m p. Map_set m (fst p) (snd p)) acc xs = acc @ xs"
proof (induction xs arbitrary: acc)
  case Nil
  show ?case by simp
next
  case (Cons x xs)
  have fresh: "fst x \<notin> fst ` set acc" using Cons.prems(2) by auto
  have step: "Map_set acc (fst x) (snd x) = acc @ [x]"
    using Map_set_fresh [OF fresh, of "snd x"] by simp
  have "fst ` set xs \<inter> fst ` set (acc @ [x]) = {}"
    using Cons.prems by auto
  then have "foldl (\<lambda>m p. Map_set m (fst p) (snd p)) (acc @ [x]) xs = (acc @ [x]) @ xs"
    using Cons.IH [of "acc @ [x]"] Cons.prems(1) by simp
  then show ?case using step by simp
qed

lemma new_Map_id: "Map_ok m \<Longrightarrow> new_Map m = m"
  using foldl_Map_set [of m "[]"] by (simp add: new_Map_def Map_ok_def)

lemma set_ownPropertyOrder: "set (ownPropertyOrder m) = set m"
  by (auto simp: ownPropertyOrder_def)

lemma length_ownPropertyOrder: "length (ownPropertyOrder m) = length m"
  using sum_length_filter_compl [of "\<lambda>p. isArrayIndex (fst p)" m]
  by (simp add: ownPropertyOrder_def)

lemma Map_ok_ownPropertyOrder:
  assumes "Map_ok m"
  shows "Map_ok (ownPropertyOrder m)"
proof -
  have "card (set (map fst (ownPropertyOrder m))) = card (set (map fst m))"
    by (simp add: set_ownPropertyOrder)
  also have "\<dots> = length m"
    using assms distinct_card [of "map fst m"] by (simp add: Map_ok_def)
  finally have "card (set (map fst (ownPropertyOrder m))) = length (map fst (ownPropertyOrder m))"
    by (simp add: length_ownPropertyOrder)
  then show ?thesis
    unfolding Map_ok_def by (rule card_distinct)
qed

lemma ownPropertyOrder_plain:
  assumes "\<forall>k \<in> fst ` set m. \<not> isArrayIndex k"
  shows "ownPropertyOrder m = m"
proof -
  have "filter (\<lambda>p. isArrayIndex (fst p)) m = []"
    using assms by (auto simp: filter_empty_conv)
  moreover have "filter (\<lambda>p. \<not> isArrayIndex (fst p)) m = m"
    using assms by (auto simp: filter_id_conv)
  ultimately show ?thesis by (simp add: ownPropertyOrder_def)
qed

lemma Map_roundtrip:
  assumes "Map_ok m"
  shows "new_Map (Object_entries (Object_fromEntries m)) = ownPropertyOrder m"
proof -
  have "Object_fromEntries m = ownPropertyOrder m"
    using new_Map_id [OF assms] by (simp add: Object_fromEntries_def new_Map_def)
  then show ?thesis
    using new_Map_id [OF Map_ok_ownPropertyOrder [OF assms]] by (simp add: Object_entries_def)
qed

lemma Map_get_ownPropertyOrder:
  assumes "Map_ok m"
  shows "Map_get (ownPropertyOrder m) = Map_get m"
proof -
  have "map_of (ownPropertyOrder m) = map_of m"
    using assms Map_ok_ownPropertyOrder [OF assms] set_ownPropertyOrder [of m]
    by (simp add: Map_ok_def map_of_inject_set)
  then show ?thesis by (simp add: Map_get_def fun_eq_iff)
qed

lemma fromJSON_toJSON:
  assumes "Map_ok (referrers e)" and "Map_ok (browserStats e)"
  shows "fromJSON (toJSON e) =
           e\<lparr> referrers := ownPropertyOrder (referrers e),
              browserStats := ownPropertyOrder (browserStats e) \<rparr>"
  using Map_roundtrip [OF assms(1)] Map_roundtrip [OF assms(2)]
  by (simp add: fromJSON_def toJSON_def new_UrlEntry_def slug_given_def)

lemma entry_seen_fields:
  "referrers entry_seen = [(''https://news.example/'', 1), (''10'', 1)]"
  "browserStats entry_seen = [(''Other'', 1), (''Firefox'', 1)]"
  "shortId entry_seen = ''0a1b2c3d''"
  "accessCount entry_seen = 2"
  by (simp_all add: entry_seen_def entry_live_def new_UrlEntry_def updateStats_def bump_def
      Map_get_def getBrowserFromUserAgent_def slug_given_def)

lemma isArrayIndex_samples:
  "isArrayIndex ''10''" "\<not> isArrayIndex ''https://news.example/''"
  "\<not> isArrayIndex ''Other''" "\<not> isArrayIndex ''Firefox''"
  by (simp_all add: isArrayIndex_def isDecimalDigit_def digitsValue_def digitValue_def)

text \<open>
  Claim C9.  \<open>fromJSON (toJSON entry)\<close> has the fields of the entry: \<open>longUrl\<close>,
  \<open>shortId\<close>, \<open>createdAt\<close>, \<open>ttl\<close>, \<open>accessCount\<close>, \<open>lastAccessed\<close> and \<open>qrCode\<close> are equal,
  and each of the two maps holds the same counter under the same key (the same pairs,
  the same lookups, distinct keys).  \<open>toJSON\<close> writes no \<open>customSlug\<close>, and the constructor
  then takes the stored \<open>shortId\<close>.  The maps are compared as mappings: a plain object
  lists array-index keys first, so a map with such a key can come back in another
  iteration order; with no such key the restored entry is the original record.
\<close>

theorem C9_roundtrip:
  assumes "Map_ok (referrers e)" and "Map_ok (browserStats e)"
  shows "longUrl (fromJSON (toJSON e)) = longUrl e
       \<and> shortId (fromJSON (toJSON e)) = shortId e
       \<and> createdAt (fromJSON (toJSON e)) = createdAt e
       \<and> ttl (fromJSON (toJSON e)) = ttl e
       \<and> accessCount (fromJSON (toJSON e)) = accessCount e
       \<and> lastAccessed (fromJSON (toJSON e)) = lastAccessed e
       \<and> qrCode (fromJSON (toJSON e)) = qrCode e
       \<and> set (referrers (fromJSON (toJSON e))) = set (referrers e)
       \<and> Map_get (referrers (fromJSON (toJSON e))) = Map_get (referrers e)
       \<and> Map_ok (referrers (fromJSON (toJSON e)))
       \<and> set (browserStats (fromJSON (toJSON e))) = set (browserStats e)
       \<and> Map_get (browserStats (fromJSON (toJSON e))) = Map_get (browserStats e)
       \<and> Map_ok (browserStats (fromJSON (toJSON e)))
       \<and> json_customSlug (toJSON e) = None
       \<and> json_shortId (toJSON e) = shortId e
       \<and> ((\<forall>k \<in> fst ` set (referrers e) \<union> fst ` set (browserStats e). \<not> isArrayIndex k)
            \<longrightarrow> fromJSON (toJSON e) = e)"
proof -
  note rt = fromJSON_toJSON [OF assms]
  have plain: "fromJSON (toJSON e) = e"
    if "\<forall>k \<in> fst ` set (referrers e) \<union> fst ` set (browserStats e). \<not> isArrayIndex k"
  proof -
    have "ownPropertyOrder (referrers e) = referrers e"
      using that by (intro ownPropertyOrder_plain) blast
    moreover have "ownPropertyOrder (browserStats e) = browserStats e"
      using that by (intro ownPropertyOrder_plain) blast
    ultimately show ?thesis using rt by simp
  qed
  have json: "json_customSlug (toJSON e) = None" "json_shortId (toJSON e) = shortId e"
    by (simp_all add: toJSON_def)
  show ?thesis
    using plain json unfolding rt
    by (simp add: set_ownPropertyOrder Map_get_ownPropertyOrder [OF assms(1)]
        Map_get_ownPropertyOrder [OF assms(2)] Map_ok_ownPropertyOrder [OF assms(1)]
        Map_ok_ownPropertyOrder [OF assms(2)])
qed

theorem C9_roundtrip_witness:
  "Map_ok (referrers entry_seen) \<and> Map_ok (browserStats entry_seen)
   \<and> shortId (fromJSON (toJSON entry_seen)) = ''0a1b2c3d''
   \<and> accessCount (fromJSON (toJSON entry_seen)) = 2
   \<and> json_customSlug (toJSON entry_seen) = None
   \<and> referrers entry_seen = [(''https://news.example/'', 1), (''10'', 1)]
   \<and> set (referrers (fromJSON (toJSON entry_seen))) = {(''https://news.example/'', 1), (''10'', 1)}
   \<and> Map_get (referrers (fromJSON (toJSON entry_seen))) ''10'' = Some 1
   \<and> referrers (fromJSON (toJSON entry_seen)) = [(''10'', 1), (''https://news.example/'', 1)]
   \<and> browserStats (fromJSON (toJSON entry_seen)) = [(''Other'', 1), (''Firefox'', 1)]
   \<and> Map_ok (referrers entry_live) \<and> Map_ok (browserStats entry_live)
   \<and> filter isArrayIndex (map fst (referrers entry_live) @ map fst (browserStats entry_live)) = []
   \<and> fromJSON (toJSON entry_live) = entry_live"
proof -
  have ok: "Map_ok (referrers entry_seen)" "Map_ok (browserStats entry_seen)"
    by (simp_all add: entry_seen_fields Map_ok_def)
  note t = C9_roundtrip [OF ok]
  have a: "shortId (fromJSON (toJSON entry_seen)) = ''0a1b2c3d''"
    "accessCount (fromJSON (toJSON entry_seen)) = 2"
    "json_customSlug (toJSON entry_seen) = None"
    "set (referrers (fromJSON (toJSON entry_seen))) = {(''https://news.example/'', 1), (''10'', 1)}"
    "Map_get (referrers (fromJSON (toJSON entry_seen))) ''10'' = Some 1"
    using t by (simp_all add: entry_seen_fields Map_get_def)
  have b: "browserStats (fromJSON (toJSON entry_seen)) = [(''Other'', 1), (''Firefox'', 1)]"
    by (simp add: fromJSON_toJSON [OF ok] entry_seen_fields ownPropertyOrder_def
        isArrayIndex_samples)
  have b': "referrers (fromJSON (toJSON entry_seen)) = [(''10'', 1), (''https://news.example/'', 1)]"
    by (simp add: fromJSON_toJSON [OF ok] entry_seen_fields ownPropertyOrder_def
        isArrayIndex_samples)
  have ok': "Map_ok (referrers entry_live)" "Map_ok (browserStats entry_live)"
    by (simp_all add: entry_live_def new_UrlEntry_def Map_ok_def)
  have plain: "\<forall>k \<in> fst ` set (referrers entry_live) \<union> fst ` set (browserStats entry_live).
         \<not> isArrayIndex k"
    by (simp add: entry_live_def new_UrlEntry_def)
  have plain': "filter isArrayIndex
      (map fst (referrers entry_live) @ map fst (browserStats entry_live)) = []"
    by (simp add: entry_live_def new_UrlEntry_def)
  have c: "fromJSON (toJSON entry_live) = entry_live"
    using C9_roundtrip [OF ok'] plain by blast
  show ?thesis
    by (intro conjI) (fact ok a b b' ok' plain' c entry_seen_fields)+
qed

section \<open>The access counter along a run\<close>

lemma isExpired_same:
  "createdAt e' = createdAt e \<Longrightarrow> ttl e' = ttl e \<Longrightarrow> isExpired t e' = isExpired t e"
  by (simp add: isExpired_def split: option.splits js_number.splits)

lemma shorten_table:
  "snd (shorten isWebUri parseInt gen qr now req db) = db
   \<or> (\<exists>ent. snd (shorten isWebUri parseInt gen qr now req db)
               = Map_set db (if slug_given (body_customSlug req)
                             then the (body_customSlug req) else gen) ent
            \<and> accessCount ent = 0
            \<and> (slug_given (body_customSlug req) \<longrightarrow> \<not> Map_has db (the (body_customSlug req))))"
proof (cases "isWebUri (body_longUrl req)
    \<and> (slug_given (body_customSlug req) \<longrightarrow>
          isValidCustomSlug (the (body_customSlug req)) \<and> \<not> Map_has db (the (body_customSlug req)))")
  case False
  then have "snd (shorten isWebUri parseInt gen qr now req db) = db"
    by (auto simp: shorten_def Let_def)
  then show ?thesis by simp
next
  case True
  show ?thesis
  proof (cases "find (liveMatch now (body_longUrl req)) db")
    case (Some y)
    obtain k' e' where "y = (k', e')" by (cases y)
    then have "shorten isWebUri parseInt gen qr now req db = (Json k' (body_longUrl req) (getStats now e'), db)"
      using True Some by (intro shorten_hit) simp_all
    then show ?thesis by simp
  next
    case None
    let ?sid = "if slug_given (body_customSlug req) then the (body_customSlug req) else gen"
    let ?ent = "(new_UrlEntry (body_longUrl req) ?sid now
                 (if truthy (body_ttl req) then Some (parseInt (body_ttl req)) else None)
                 (body_customSlug req))
               \<lparr> qrCode := qr (req_protocol req @ ''://'' @ req_host req @ ''/'' @ ?sid) \<rparr>"
    have "shorten isWebUri parseInt gen qr now req db
            = (Json ?sid (body_longUrl req) (getStats now ?ent), Map_set db ?sid ?ent)"
      using True None by (intro shorten_miss) simp_all
    then have "snd (shorten isWebUri parseInt gen qr now req db) = Map_set db ?sid ?ent" by simp
    moreover have "accessCount ?ent = 0" by (simp add: new_entry_fields)
    ultimately show ?thesis using True by blast
  qed
qed

lemma redirect_table:
  "snd (redirect now req db) =
     (case Map_get db (param_shortId req) of
        None \<Rightarrow> db
      | Some e \<Rightarrow> if isExpired now e then Map_delete db (param_shortId req)
                  else Map_set db (param_shortId req)
                         (updateStats now (header_or (header_Referrer req) ''Direct'')
                            (header_or (header_UserAgent req) ''Unknown'') e))"
  by (simp add: redirect_def Let_def split: option.splits)

lemma accessCount_updateStats: "accessCount (updateStats now r u e) = accessCount e + 1"
  "lastAccessed (updateStats now r u e) = Some now"
  by (simp_all add: updateStats_def)

lemma Map_get_filter_keys:
  "Map_get (filter (\<lambda>p. Q (fst p)) m) k = (if Q k then Map_get m k else None)"
  by (induction m) (auto simp: Map_get_def)

lemma shorten_Map_ok: "Map_ok db \<Longrightarrow> Map_ok (snd (shorten isWebUri parseInt gen qr now req db))"
  using shorten_table [of isWebUri parseInt gen qr now req db] by (auto simp: Map_ok_set)

lemma step_Map_ok: "Map_ok db \<Longrightarrow> Map_ok (step isWebUri parseInt now op db)"
proof (cases op)
  case (Op_shorten gen qr req)
  assume "Map_ok db"
  then show ?thesis using Op_shorten by (simp add: shorten_Map_ok)
next
  case (Op_redirect req)
  assume "Map_ok db"
  then show ?thesis using Op_redirect
    by (simp add: redirect_table Map_ok_set Map_ok_delete split: option.splits)
next
  case Op_cleanup
  assume ok: "Map_ok db"
  then have "Map_ok (filter (\<lambda>p. \<not> isExpired now (snd p)) db)"
    by (simp add: Map_ok_def distinct_map_filter)
  then show ?thesis using Op_cleanup cleanup_filter [OF ok] by simp
qed simp_all

lemma step_keeps:
  assumes ok: "Map_ok db" and held: "Map_get db k = Some e"
    and live: "\<not> isExpired now e" and nogen: "\<not> generates k op"
  shows "\<exists>e'. Map_get (step isWebUri parseInt now op db) k = Some e'
           \<and> accessCount e' = accessCount e + (if redirects_to k op then 1 else 0)
           \<and> createdAt e' = createdAt e \<and> ttl e' = ttl e"
proof (cases op)
  case (Op_shorten gen qr req)
  have "Map_get (snd (shorten isWebUri parseInt gen qr now req db)) k = Some e"
    using shorten_table [of isWebUri parseInt gen qr now req db]
  proof
    assume "snd (shorten isWebUri parseInt gen qr now req db) = db"
    then show ?thesis using held by simp
  next
    assume "\<exists>ent. snd (shorten isWebUri parseInt gen qr now req db)
               = Map_set db (if slug_given (body_customSlug req)
                             then the (body_customSlug req) else gen) ent
            \<and> accessCount ent = 0
            \<and> (slug_given (body_customSlug req) \<longrightarrow> \<not> Map_has db (the (body_customSlug req)))"
    then obtain ent where t: "snd (shorten isWebUri parseInt gen qr now req db)
               = Map_set db (if slug_given (body_customSlug req)
                             then the (body_customSlug req) else gen) ent"
        and s: "slug_given (body_customSlug req) \<longrightarrow> \<not> Map_has db (the (body_customSlug req))"
      by blast
    have "(if slug_given (body_customSlug req) then the (body_customSlug req) else gen) \<noteq> k"
      using s held nogen Op_shorten by (auto simp: Map_has_def)
    then show ?thesis using t held by (simp add: Map_get_set)
  qed
  then show ?thesis using Op_shorten by simp
next
  case (Op_redirect req)
  show ?thesis
  proof (cases "param_shortId req = k")
    case True
    then show ?thesis
      using Op_redirect held live
      by (simp add: redirect_table Map_get_set accessCount_updateStats updateStats_frame)
  next
    case False
    then have "Map_get (snd (redirect now req db)) k = Some e"
      using held by (simp add: redirect_table Map_get_set Map_get_delete split: option.splits)
    then show ?thesis using Op_redirect False by simp
  qed
next
  case (Op_stats s)
  then show ?thesis using held by simp
next
  case Op_health
  then show ?thesis using held by simp
next
  case Op_cleanup
  have "Map_get (fst (cleanupExpiredUrls now db)) k = Some e"
    using cleanup_filter [OF ok, of now] Map_get_filter [OF ok, of "\<lambda>p. \<not> isExpired now (snd p)" k]
      held live by simp
  then show ?thesis using Op_cleanup by simp
qed

lemma run_counts:
  assumes "Map_ok db" and "Map_get db k = Some e"
    and "\<forall>p \<in> set trace. \<not> isExpired (fst p) e \<and> \<not> generates k (snd p)"
  shows "\<exists>e'. Map_get (run isWebUri parseInt trace db) k = Some e'
           \<and> accessCount e' = accessCount e + int (length (filter (\<lambda>p. redirects_to k (snd p)) trace))
           \<and> createdAt e' = createdAt e \<and> ttl e' = ttl e"
  using assms
proof (induction trace arbitrary: db e)
  case Nil
  then show ?case by simp
next
  case (Cons p trace)
  obtain now op where p: "p = (now, op)" by (cases p)
  have live: "\<not> isExpired now e" and nogen: "\<not> generates k op"
    using Cons.prems(3) p by simp_all
  obtain e1 where e1: "Map_get (step isWebUri parseInt now op db) k = Some e1"
      "accessCount e1 = accessCount e + (if redirects_to k op then 1 else 0)"
      "createdAt e1 = createdAt e" "ttl e1 = ttl e"
    using step_keeps [OF Cons.prems(1,2) live nogen, of isWebUri parseInt] by blast
  have ok1: "Map_ok (step isWebUri parseInt now op db)"
    using Cons.prems(1) by (rule step_Map_ok)
  have rest: "\<forall>q \<in> set trace. \<not> isExpired (fst q) e1 \<and> \<not> generates k (snd q)"
    using Cons.prems(3) isExpired_same [OF e1(3,4)] by simp
  obtain e' where e': "Map_get (run isWebUri parseInt trace (step isWebUri parseInt now op db)) k = Some e'"
      "accessCount e' = accessCount e1 + int (length (filter (\<lambda>p. redirects_to k (snd p)) trace))"
      "createdAt e' = createdAt e1" "ttl e' = ttl e1"
    using Cons.IH [OF ok1 e1(1) rest] by blast
  show ?case
    using e' e1 p by simp
qed

lemma step_never_less:
  assumes held: "Map_get db k = Some e" and after: "Map_get (step isWebUri parseInt now op db) k = Some e'"
  shows "accessCount e \<le> accessCount e' \<or> generates k op"
proof (cases op)
  case (Op_shorten gen qr req)
  show ?thesis
    using shorten_table [of isWebUri parseInt gen qr now req db]
  proof
    assume "snd (shorten isWebUri parseInt gen qr now req db) = db"
    then show ?thesis using held after Op_shorten by simp
  next
    assume "\<exists>ent. snd (shorten isWebUri parseInt gen qr now req db)
               = Map_set db (if slug_given (body_customSlug req)
                             then the (body_customSlug req) else gen) ent
            \<and> accessCount ent = 0
            \<and> (slug_given (body_customSlug req) \<longrightarrow> \<not> Map_has db (the (body_customSlug req)))"
    then obtain ent where t: "snd (shorten isWebUri parseInt gen qr now req db)
               = Map_set db (if slug_given (body_customSlug req)
                             then the (body_customSlug req) else gen) ent"
        and s: "slug_given (body_customSlug req) \<longrightarrow> \<not> Map_has db (the (body_customSlug req))"
      by blast
    show ?thesis
    proof (cases "generates k op")
      case True
      then show ?thesis by simp
    next
      case False
      have "(if slug_given (body_customSlug req) then the (body_customSlug req) else gen) \<noteq> k"
        using s held False Op_shorten by (auto simp: Map_has_def)
      then have "e' = e" using t held after Op_shorten by (simp add: Map_get_set)
      then show ?thesis by simp
    qed
  qed
next
  case (Op_redirect req)
  show ?thesis
  proof (cases "param_shortId req = k")
    case True
    then show ?thesis
      using Op_redirect held after
      by (auto simp: redirect_table Map_get_set Map_get_delete accessCount_updateStats
          split: if_splits)
  next
    case False
    then have "Map_get (snd (redirect now req db)) k = Some e"
      using held by (simp add: redirect_table Map_get_set Map_get_delete split: option.splits)
    then show ?thesis using Op_redirect after by simp
  qed
next
  case (Op_stats s)
  then show ?thesis using held after by simp
next
  case Op_health
  then show ?thesis using held after by simp
next
  case Op_cleanup
  have "Map_get (fst (cleanupExpiredUrls now db)) k
      = (if k \<notin> fst ` {q \<in> set db. isExpired now (snd q)} then Map_get db k else None)"
    using Map_get_filter_keys [of "\<lambda>x. x \<notin> fst ` {q \<in> set db. isExpired now (snd q)}" db k]
    by (simp add: cleanupExpiredUrls_def cleanup_loop_filter)
  then have "e' = e" using held after Op_cleanup by (simp split: if_splits)
  then show ?thesis by simp
qed

text \<open>
  Claim C7, as the code has it.  Take an entry stored under \<open>k\<close> and a run of requests and
  cleanups during which the entry is live and no create request without a custom slug
  draws \<open>k\<close> as its generated id.  After the run the entry under \<open>k\<close> has its initial
  \<open>accessCount\<close> plus the number of redirect requests for \<open>k\<close> in the run (each of them
  succeeds, since the entry is live).  A successful redirect adds one to \<open>accessCount\<close> and
  sets \<open>lastAccessed\<close> to the current time.  A new entry starts at 0.  One step never
  makes the \<open>accessCount\<close> under a key smaller while the key stays in the table, except a
  create request that draws the key as its generated id.
\<close>

theorem C7_accessCount_counts_redirects:
  "(Map_ok db \<and> Map_get db k = Some e
      \<and> (\<forall>p \<in> set trace. \<not> isExpired (fst p) e \<and> \<not> generates k (snd p))
    \<longrightarrow> (\<exists>e'. Map_get (run isWebUri parseInt trace db) k = Some e'
           \<and> accessCount e'
               = accessCount e + int (length (filter (\<lambda>p. redirects_to k (snd p)) trace))))
   \<and> (param_shortId req = k \<and> Map_get db k = Some e \<and> \<not> isExpired now e
    \<longrightarrow> (\<exists>e'. redirect now req db = (Redirect (longUrl e), Map_set db k e')
           \<and> Map_get (Map_set db k e') k = Some e'
           \<and> accessCount e' = accessCount e + 1 \<and> lastAccessed e' = Some now))
   \<and> accessCount (new_UrlEntry u s t life cs) = 0
   \<and> (Map_get db k = Some e \<and> Map_get (step isWebUri parseInt now op db) k = Some e2
    \<longrightarrow> accessCount e \<le> accessCount e2 \<or> generates k op)"
proof (intro conjI impI)
  assume h: "Map_ok db \<and> Map_get db k = Some e
      \<and> (\<forall>p \<in> set trace. \<not> isExpired (fst p) e \<and> \<not> generates k (snd p))"
  show "\<exists>e'. Map_get (run isWebUri parseInt trace db) k = Some e'
           \<and> accessCount e'
               = accessCount e + int (length (filter (\<lambda>p. redirects_to k (snd p)) trace))"
    using run_counts [of db k e trace isWebUri parseInt] h by blast
next
  assume h: "param_shortId req = k \<and> Map_get db k = Some e \<and> \<not> isExpired now e"
  let ?e' = "updateStats now (header_or (header_Referrer req) ''Direct'')
               (header_or (header_UserAgent req) ''Unknown'') e"
  have r: "redirect now req db = (Redirect (longUrl e), Map_set db k ?e')"
    using h by (intro redirect_live) simp_all
  have g: "Map_get (Map_set db k ?e') k = Some ?e'" by (simp add: Map_get_set)
  have a: "accessCount ?e' = accessCount e + 1" "lastAccessed ?e' = Some now"
    by (simp_all add: accessCount_updateStats)
  show "\<exists>e'. redirect now req db = (Redirect (longUrl e), Map_set db k e')
           \<and> Map_get (Map_set db k e') k = Some e'
           \<and> accessCount e' = accessCount e + 1 \<and> lastAccessed e' = Some now"
    by (rule exI [of _ ?e'], intro conjI) (fact r g a)+
next
  show "accessCount (new_UrlEntry u s t life cs) = 0" by (simp add: new_UrlEntry_def)
next
  assume "Map_get db k = Some e \<and> Map_get (step isWebUri parseInt now op db) k = Some e2"
  then show "accessCount e \<le> accessCount e2 \<or> generates k op"
    using step_never_less [of db k e isWebUri parseInt now op e2] by blast
qed

text \<open>
  Claim C7 as stated, that no operation but a deletion resets \<open>accessCount\<close>, fails for a
  create request whose generated id is a key of the table: \<open>urlDatabase.set\<close> overwrites
  the entry, and the key that had 2 accesses has 0.
\<close>

theorem C7_reset_by_colliding_id:
  "Map_get [(''0a1b2c3d'', entry_seen)] ''0a1b2c3d'' = Some entry_seen
   \<and> accessCount entry_seen = 2
   \<and> shorten sample_isWebUri sample_parseInt ''0a1b2c3d'' sample_toDataURL 5000
        (sample_request ''https://example.net'' JUndefined None) [(''0a1b2c3d'', entry_seen)]
      = (Json ''0a1b2c3d'' ''https://example.net'' (getStats 5000 entry_clash),
         [(''0a1b2c3d'', entry_clash)])
   \<and> Map_get (step sample_isWebUri sample_parseInt 5000
        (Op_shorten ''0a1b2c3d'' sample_toDataURL
           (sample_request ''https://example.net'' JUndefined None))
        [(''0a1b2c3d'', entry_seen)]) ''0a1b2c3d'' = Some entry_clash
   \<and> accessCount entry_clash = 0
   \<and> \<not> accessCount entry_seen \<le> accessCount entry_clash"
proof -
  let ?req = "sample_request ''https://example.net'' JUndefined None"
  have seen: "longUrl entry_seen = ''https://example.com''"
    by (simp add: entry_seen_def updateStats_frame sample_facts)
  have "find (liveMatch 5000 ''https://example.net'') [(''0a1b2c3d'', entry_seen)] = None"
    by (simp add: liveMatch_def seen)
  then have r: "shorten sample_isWebUri sample_parseInt ''0a1b2c3d'' sample_toDataURL 5000 ?req
        [(''0a1b2c3d'', entry_seen)]
      = (Json ''0a1b2c3d'' ''https://example.net'' (getStats 5000 entry_clash),
         Map_set [(''0a1b2c3d'', entry_seen)] ''0a1b2c3d'' entry_clash)"
    using shorten_miss [where isWebUri = sample_isWebUri and parseInt = sample_parseInt
        and req = ?req and db = "[(''0a1b2c3d'', entry_seen)]"
        and now = 5000 and gen = "''0a1b2c3d''" and qr = sample_toDataURL
        and sid = "''0a1b2c3d''" and ent = entry_clash]
    by (simp add: sample_facts sample_request_fields slug_given_def entry_clash_def)
  have c: "accessCount entry_clash = 0"
    by (simp add: entry_clash_def new_entry_fields)
  show ?thesis
    using r c by (simp add: Map_get_def entry_seen_fields)
qed

theorem C7_accessCount_counts_redirects_witness:
  "Map_ok [(''0a1b2c3d'', entry_live)]
   \<and> Map_get [(''0a1b2c3d'', entry_live)] ''0a1b2c3d'' = Some entry_live
   \<and> list_all (\<lambda>p. \<not> isExpired (fst p) entry_live \<and> \<not> generates ''0a1b2c3d'' (snd p))
                  [(2000, Op_redirect \<lparr> param_shortId = ''0a1b2c3d'',
                        header_Referrer = None, header_UserAgent = None \<rparr>),
                   (2500, Op_cleanup),
                   (3000, Op_shorten ''deadbeef'' sample_toDataURL
                            (sample_request ''https://example.net'' (JNumber 1000) None)),
                   (4500, Op_redirect \<lparr> param_shortId = ''0a1b2c3d'',
                        header_Referrer = Some ''https://news.example/'',
                        header_UserAgent = Some ''Mozilla/5.0 Firefox/121.0'' \<rparr>),
                   (5000, Op_redirect \<lparr> param_shortId = ''deadbeef'',
                        header_Referrer = None, header_UserAgent = None \<rparr>),
                   (6000, Op_stats ''0a1b2c3d'')]
   \<and> (\<exists>e'. Map_get (run sample_isWebUri sample_parseInt
                [(2000, Op_redirect \<lparr> param_shortId = ''0a1b2c3d'',
                        header_Referrer = None, header_UserAgent = None \<rparr>),
                 (2500, Op_cleanup),
                 (3000, Op_shorten ''deadbeef'' sample_toDataURL
                          (sample_request ''https://example.net'' (JNumber 1000) None)),
                 (4500, Op_redirect \<lparr> param_shortId = ''0a1b2c3d'',
                        header_Referrer = Some ''https://news.example/'',
                        header_UserAgent = Some ''Mozilla/5.0 Firefox/121.0'' \<rparr>),
                 (5000, Op_redirect \<lparr> param_shortId = ''deadbeef'',
                        header_Referrer = None, header_UserAgent = None \<rparr>),
                 (6000, Op_stats ''0a1b2c3d'')]
                [(''0a1b2c3d'', entry_live)]) ''0a1b2c3d'' = Some e'
          \<and> accessCount e' = accessCount entry_live + 2)
   \<and> \<not> isExpired 2000 entry_live
   \<and> (\<exists>e'. redirect 2000 \<lparr> param_shortId = ''0a1b2c3d'',
                header_Referrer = None, header_UserAgent = None \<rparr> [(''0a1b2c3d'', entry_live)]
            = (Redirect (longUrl entry_live), Map_set [(''0a1b2c3d'', entry_live)] ''0a1b2c3d'' e')
          \<and> Map_get (Map_set [(''0a1b2c3d'', entry_live)] ''0a1b2c3d'' e') ''0a1b2c3d'' = Some e'
          \<and> accessCount e' = accessCount entry_live + 1 \<and> lastAccessed e' = Some 2000)
   \<and> accessCount entry_live = 0
   \<and> Map_get (step sample_isWebUri sample_parseInt 2000
        (Op_redirect \<lparr> param_shortId = ''0a1b2c3d'',
                        header_Referrer = None, header_UserAgent = None \<rparr>)
        [(''0a1b2c3d'', entry_live)]) ''0a1b2c3d''
      = Some (updateStats 2000 ''Direct'' ''Unknown'' entry_live)
   \<and> accessCount entry_live \<le> accessCount (updateStats 2000 ''Direct'' ''Unknown'' entry_live)"
proof -
  let ?r1 = "\<lparr> param_shortId = ''0a1b2c3d'', header_Referrer = None, header_UserAgent = None \<rparr>"
  let ?r2 = "\<lparr> param_shortId = ''0a1b2c3d'', header_Referrer = Some ''https://news.example/'',
                        header_UserAgent = Some ''Mozilla/5.0 Firefox/121.0'' \<rparr>"
  let ?r3 = "\<lparr> param_shortId = ''deadbeef'', header_Referrer = None, header_UserAgent = None \<rparr>"
  let ?trace = "[(2000, Op_redirect ?r1), (2500, Op_cleanup),
                 (3000, Op_shorten ''deadbeef'' sample_toDataURL
                          (sample_request ''https://example.net'' (JNumber 1000) None)),
                 (4500, Op_redirect ?r2), (5000, Op_redirect ?r3), (6000, Op_stats ''0a1b2c3d'')]"
  let ?db = "[(''0a1b2c3d'', entry_live)]"
  have never: "\<not> isExpired t entry_live" for t
    by (simp add: isExpired_def entry_live_def new_UrlEntry_def)
  have h: "Map_ok ?db" "Map_get ?db ''0a1b2c3d'' = Some entry_live"
    by (simp_all add: Map_ok_def Map_get_def)
  have tr': "list_all (\<lambda>p. \<not> isExpired (fst p) entry_live \<and> \<not> generates ''0a1b2c3d'' (snd p))
      ?trace"
    by (simp add: never)
  have tr: "\<forall>p \<in> set ?trace. \<not> isExpired (fst p) entry_live \<and> \<not> generates ''0a1b2c3d'' (snd p)"
    by (simp add: never)
  have zero: "accessCount entry_live = 0"
    using C7_accessCount_counts_redirects [of ?db "''0a1b2c3d''" entry_live ?trace sample_isWebUri sample_parseInt ?r1
        2000 "''https://example.com''" "''0a1b2c3d''" 1000 None None Op_health entry_live]
    by (simp add: entry_live_def)
  note t = C7_accessCount_counts_redirects [of ?db "''0a1b2c3d''" entry_live ?trace sample_isWebUri sample_parseInt ?r1
      2000 "''https://example.com''" "''0a1b2c3d''" 1000 None None "Op_redirect ?r1"
      "updateStats 2000 ''Direct'' ''Unknown'' entry_live"]
  have a: "\<exists>e'. Map_get (run sample_isWebUri sample_parseInt ?trace ?db) ''0a1b2c3d'' = Some e'
          \<and> accessCount e' = accessCount entry_live + 2"
    using t h tr by simp
  have b: "\<exists>e'. redirect 2000 ?r1 ?db
            = (Redirect (longUrl entry_live), Map_set ?db ''0a1b2c3d'' e')
          \<and> Map_get (Map_set ?db ''0a1b2c3d'' e') ''0a1b2c3d'' = Some e'
          \<and> accessCount e' = accessCount entry_live + 1 \<and> lastAccessed e' = Some 2000"
    using t h never [of 2000] by simp
  have s: "Map_get (step sample_isWebUri sample_parseInt 2000 (Op_redirect ?r1) ?db) ''0a1b2c3d''
      = Some (updateStats 2000 ''Direct'' ''Unknown'' entry_live)"
    using h never [of 2000] by (simp add: redirect_table Map_get_def header_or_def)
  have c: "accessCount entry_live \<le> accessCount (updateStats 2000 ''Direct'' ''Unknown'' entry_live)"
    using t h s by simp
  show ?thesis
    by (intro conjI) (fact h tr' a b zero s c never)+
qed

section \<open>Entries are stored under their own short id\<close>

lemma shorten_ids_ok:
  assumes "ids_ok db"
  shows "ids_ok (snd (shorten isWebUri parseInt gen qr now req db))"
proof (cases "isWebUri (body_longUrl req)
    \<and> (slug_given (body_customSlug req) \<longrightarrow>
          isValidCustomSlug (the (body_customSlug req)) \<and> \<not> Map_has db (the (body_customSlug req)))")
  case False
  then have "snd (shorten isWebUri parseInt gen qr now req db) = db"
    by (auto simp: shorten_def Let_def)
  then show ?thesis using assms by simp
next
  case True
  show ?thesis
  proof (cases "find (liveMatch now (body_longUrl req)) db")
    case (Some y)
    obtain k' e' where "y = (k', e')" by (cases y)
    then have "shorten isWebUri parseInt gen qr now req db = (Json k' (body_longUrl req) (getStats now e'), db)"
      using True Some by (intro shorten_hit) simp_all
    then show ?thesis using assms by simp
  next
    case None
    let ?sid = "if slug_given (body_customSlug req) then the (body_customSlug req) else gen"
    let ?ent = "(new_UrlEntry (body_longUrl req) ?sid now
                 (if truthy (body_ttl req) then Some (parseInt (body_ttl req)) else None)
                 (body_customSlug req))
               \<lparr> qrCode := qr (req_protocol req @ ''://'' @ req_host req @ ''/'' @ ?sid) \<rparr>"
    have "shorten isWebUri parseInt gen qr now req db
            = (Json ?sid (body_longUrl req) (getStats now ?ent), Map_set db ?sid ?ent)"
      using True None by (intro shorten_miss) simp_all
    moreover have "shortId ?ent = ?sid" by (simp add: new_UrlEntry_def)
    ultimately show ?thesis using assms by (simp add: ids_ok_set)
  qed
qed

lemma step_ids_ok:
  assumes "ids_ok db"
  shows "ids_ok (step isWebUri parseInt now op db)"
proof (cases op)
  case (Op_shorten gen qr req)
  then show ?thesis using shorten_ids_ok [OF assms] by simp
next
  case (Op_redirect req)
  show ?thesis
  proof (cases "Map_get db (param_shortId req)")
    case None
    then show ?thesis using Op_redirect assms by (simp add: redirect_table)
  next
    case (Some e)
    then have "shortId e = param_shortId req"
      using assms Map_get_SomeD [OF Some] by (auto simp: ids_ok_iff)
    then show ?thesis
      using Op_redirect assms Some
      by (simp add: redirect_table Map_delete_filter ids_ok_filter ids_ok_set updateStats_frame)
  qed
next
  case Op_cleanup
  then show ?thesis
    using assms by (simp add: cleanupExpiredUrls_def cleanup_loop_filter ids_ok_filter)
qed (simp_all add: assms)

end
